theory Spec2Isabelle
  imports Main "HOL-Library.Sublist"
begin

section \<open>Strings and the regular expressions of the parsers\<close>

text \<open>
  Python strings are modelled as \<^typ>\<open>string\<close>, a character standing for the code point
  of its number; every character the parsers test for is ASCII. The regular expressions
  of the source are written out as recognisers on lists, each next to the pattern it
  stands for. In Python, \<^verbatim>\<open>$\<close> (without MULTILINE) holds at
  the end of the string and also just before a newline that ends the string, which is
  why the anchored patterns first drop one final newline.
\<close>

definition is_digit :: "char \<Rightarrow> bool" where
  "is_digit c \<longleftrightarrow> c \<in> set ''0123456789''"

definition is_upper :: "char \<Rightarrow> bool" where
  "is_upper c \<longleftrightarrow> c \<in> set ''ABCDEFGHIJKLMNOPQRSTUVWXYZ''"

definition is_lower :: "char \<Rightarrow> bool" where
  "is_lower c \<longleftrightarrow> c \<in> set ''abcdefghijklmnopqrstuvwxyz''"

text \<open>\<^verbatim>\<open>[A-Z0-9]\<close>\<close>

definition is_upper_alnum :: "char \<Rightarrow> bool" where
  "is_upper_alnum c \<longleftrightarrow> is_upper c \<or> is_digit c"

text \<open>
  \<^verbatim>\<open>\s\<close> and the characters \<^verbatim>\<open>str.strip()\<close> removes, among the code points below 256:
  tab, LF, VT, FF, CR, FS, GS, RS, US, space, NEL and the no-break space.
\<close>

definition is_space :: "char \<Rightarrow> bool" where
  "is_space c \<longleftrightarrow>
     c \<in> {CHR 0x09, CHR 0x0A, CHR 0x0B, CHR 0x0C, CHR 0x0D,
           CHR 0x1C, CHR 0x1D, CHR 0x1E, CHR 0x1F, CHR 0x20, CHR 0x85, CHR 0xA0}"

definition to_upper :: "char \<Rightarrow> char" where
  "to_upper c = (if is_lower c then char_of (of_char c - (32::nat)) else c)"


definition digit_val :: "char \<Rightarrow> nat" where
  "digit_val c = of_char c - 48"

definition digit_char :: "nat \<Rightarrow> char" where
  "digit_char d = char_of (48 + d)"

text \<open>\<^verbatim>\<open>int(s)\<close> on a string of digits, and \<^verbatim>\<open>str(n)\<close> on a natural number.\<close>

definition nat_of_digits :: "string \<Rightarrow> nat" where
  "nat_of_digits ds = foldl (\<lambda>acc c. 10 * acc + digit_val c) 0 ds"

fun str_nat :: "nat \<Rightarrow> string" where
  "str_nat n = (if n < 10 then [digit_char n] else str_nat (n div 10) @ [digit_char (n mod 10)])"

declare str_nat.simps [simp del]

definition strip_final_newline :: "string \<Rightarrow> string" where
  "strip_final_newline s = (if s \<noteq> [] \<and> last s = CHR 0x0A then butlast s else s)"

text \<open>\<^verbatim>\<open>needle in haystack\<close>\<close>

fun contains :: "string \<Rightarrow> string \<Rightarrow> bool" where
  "contains needle [] = (needle = [])"
| "contains needle (c # cs) = (prefix needle (c # cs) \<or> contains needle cs)"

text \<open>\<^verbatim>\<open>s.strip()\<close>\<close>

definition strip :: "string \<Rightarrow> string" where
  "strip s = rev (dropWhile is_space (rev (dropWhile is_space s)))"

text \<open>
  \<^verbatim>\<open>\d{1,2}\<close> followed by the rest \<open>k\<close> of a pattern: two digits are tried first, then one.
\<close>

definition digits12_then :: "(string \<Rightarrow> bool) \<Rightarrow> string \<Rightarrow> bool" where
  "digits12_then k t =
     (case t of
        [] \<Rightarrow> False
      | [a] \<Rightarrow> is_digit a \<and> k []
      | a # b # r \<Rightarrow> is_digit a \<and> ((is_digit b \<and> k r) \<or> k (b # r)))"

text \<open>\<^verbatim>\<open>(\.\d)?\<close> followed by the rest \<open>k\<close> of a pattern.\<close>

definition opt_frac_then :: "(string \<Rightarrow> bool) \<Rightarrow> string \<Rightarrow> bool" where
  "opt_frac_then k r =
     ((case r of p # f # r' \<Rightarrow> p = CHR ''.'' \<and> is_digit f \<and> k r' | _ \<Rightarrow> False) \<or> k r)"

text \<open>One letter, compared without case, at the end of the pattern.\<close>

definition final_letter :: "char \<Rightarrow> string \<Rightarrow> bool" where
  "final_letter c r = (case r of [x] \<Rightarrow> to_upper x = c | _ \<Rightarrow> False)"

section \<open>Footlocker parser: validation and normalisation of sizes\<close>

text \<open>\<^verbatim>\<open>re.match(r'^\d{1,2}\.\d$', size)\<close>\<close>

definition rx_decimal_size :: "string \<Rightarrow> bool" where
  "rx_decimal_size s =
     digits12_then (\<lambda>r. case r of [p, f] \<Rightarrow> p = CHR ''.'' \<and> is_digit f | _ \<Rightarrow> False)
       (strip_final_newline s)"

text \<open>\<^verbatim>\<open>re.match(r'^\d{1,2}$', size)\<close>\<close>

definition rx_integer_size :: "string \<Rightarrow> bool" where
  "rx_integer_size s = digits12_then (\<lambda>r. r = []) (strip_final_newline s)"

text \<open>\<^verbatim>\<open>re.match(r'^\d{1,2}(\.\d)?Y$', size, re.IGNORECASE)\<close>, and the same with W.\<close>

definition rx_frac_letter_size :: "char \<Rightarrow> string \<Rightarrow> bool" where
  "rx_frac_letter_size c s =
     digits12_then (opt_frac_then (final_letter c)) (strip_final_newline s)"

text \<open>\<^verbatim>\<open>re.match(r'^\d{1,2}T$', size, re.IGNORECASE)\<close>, and the same with C.\<close>

definition rx_letter_size :: "char \<Rightarrow> string \<Rightarrow> bool" where
  "rx_letter_size c s = digits12_then (final_letter c) (strip_final_newline s)"

text \<open>\<^verbatim>\<open>re.match(r'^[SMLX]+$', size, re.IGNORECASE)\<close>\<close>

definition rx_smlx_size :: "string \<Rightarrow> bool" where
  "rx_smlx_size s =
     (let t = strip_final_newline s in t \<noteq> [] \<and> list_all (\<lambda>c. to_upper c \<in> set ''SMLX'') t)"

text \<open>\<^verbatim>\<open>re.match(r'^OS(FM)?$', size, re.IGNORECASE)\<close>\<close>

definition rx_one_size :: "string \<Rightarrow> bool" where
  "rx_one_size s =
     (let t = map to_upper (strip_final_newline s) in t = ''OS'' \<or> t = ''OSFM'')"

text \<open>
  \<^verbatim>\<open>int(size)\<close> once \<^verbatim>\<open>^\d{1,2}$\<close> has matched: \<^verbatim>\<open>int\<close> ignores the surrounding
  white space, here the final newline.
\<close>

definition int_of_size :: "string \<Rightarrow> nat" where
  "int_of_size s = nat_of_digits (strip_final_newline s)"

text \<open>\<^verbatim>\<open>FootlockerEmailParser._is_valid_size\<close>\<close>

definition is_valid_size :: "string \<Rightarrow> bool" where
  "is_valid_size sz =
     (if rx_decimal_size sz then True
      else if rx_integer_size sz then 4 \<le> int_of_size sz \<and> int_of_size sz \<le> 18
      else if rx_frac_letter_size CHR ''Y'' sz then True
      else if rx_letter_size CHR ''T'' sz then True
      else if rx_letter_size CHR ''C'' sz then True
      else if rx_frac_letter_size CHR ''W'' sz then True
      else if rx_smlx_size sz then True
      else if rx_one_size sz then True
      else False)"

text \<open>\<^verbatim>\<open>re.match(r'^\d+$', quantity)\<close>\<close>

definition rx_digits :: "string \<Rightarrow> bool" where
  "rx_digits s = (let t = strip_final_newline s in t \<noteq> [] \<and> list_all is_digit t)"

text \<open>
  \<^verbatim>\<open>int(s)\<close> raises \<^verbatim>\<open>ValueError\<close> for a string of more than 4300 digits (the default of
  \<^verbatim>\<open>sys.get_int_max_str_digits()\<close>). Leading zeros count; the sign, the underscores between
  digits and the white space around the number do not.
\<close>

definition int_max_str_digits :: nat where
  "int_max_str_digits = 4300"

text \<open>
  \<^verbatim>\<open>FootlockerEmailParser._is_valid_quantity\<close>; \<open>None\<close> stands for the \<^verbatim>\<open>ValueError\<close> of
  \<^verbatim>\<open>int(quantity)\<close>, which the method does not catch.
\<close>

definition is_valid_quantity :: "string \<Rightarrow> bool option" where
  "is_valid_quantity q =
     (if \<not> rx_digits q then Some False
      else if int_max_str_digits < length (strip_final_newline q) then None
      else Some (1 \<le> nat_of_digits (strip_final_newline q)
                 \<and> nat_of_digits (strip_final_newline q) \<le> 20))"

text \<open>
  \<^verbatim>\<open>float(size)\<close> for a string that matched \<^verbatim>\<open>^\d{1,2}\.\d$\<close>, kept exactly as a number
  of tenths: the double nearest to \<open>n + d/10\<close> is a whole number only for \<open>d = 0\<close>, and
  Python prints it with the shortest digits that read back, which are \<open>n.d\<close>.
\<close>

definition float_tenths :: "string \<Rightarrow> nat" where
  "float_tenths s =
     (let t = strip_final_newline s
      in 10 * nat_of_digits (takeWhile is_digit t) + digit_val (last t))"

text \<open>\<^verbatim>\<open>FootlockerEmailParser._clean_size\<close>\<close>

definition clean_size :: "string \<Rightarrow> string" where
  "clean_size sz =
     (if rx_decimal_size sz then
        (let num = float_tenths sz
         in if num mod 10 = 0 then str_nat (num div 10)
            else str_nat (num div 10) @ ''.'' @ str_nat (num mod 10))
      else sz)"

section \<open>Footlocker parser: pairing sizes with quantities\<close>

text \<open>
  An entry of \<^verbatim>\<open>size_quantity_data\<close>: the dictionary with the keys \<^verbatim>\<open>type\<close>,
  \<^verbatim>\<open>value\<close> and \<^verbatim>\<open>context\<close> (the \<^verbatim>\<open>element\<close> key, the tag itself, is never read).
\<close>

datatype sq_type = SizeT | QuantityT

record sq_entry =
  sq_type :: sq_type
  sq_value :: string
  sq_context :: string

text \<open>
  What the parser reads of a \<^verbatim>\<open>span\<close> tag: its stripped text and the stripped text of
  its parent, if it has one.
\<close>

record span_tag =
  span_text :: string
  parent_text :: "string option"

text \<open>
  The body of the loop of \<^verbatim>\<open>FootlockerEmailParser._extract_all_size_quantity_data\<close> for one
  span: the entries it appends, or \<open>None\<close> when \<^verbatim>\<open>_is_valid_quantity\<close> raises.
\<close>

definition span_entries :: "span_tag \<Rightarrow> sq_entry list option" where
  "span_entries sp =
     (case parent_text sp of
        None \<Rightarrow> Some []
      | Some pt \<Rightarrow>
          (let sizes = (if contains ''Size'' pt \<and> is_valid_size (span_text sp)
                        then [\<lparr>sq_type = SizeT, sq_value = span_text sp, sq_context = pt\<rparr>]
                        else [])
           in if contains ''Qty'' pt
              then (case is_valid_quantity (span_text sp) of
                      None \<Rightarrow> None
                    | Some ok \<Rightarrow>
                        Some (sizes @ (if ok then [\<lparr>sq_type = QuantityT, sq_value = span_text sp,
                                                      sq_context = pt\<rparr>] else [])))
              else Some sizes))"

fun collect_entries :: "span_tag list \<Rightarrow> sq_entry list option" where
  "collect_entries [] = Some []"
| "collect_entries (sp # sps) =
     (case span_entries sp of
        None \<Rightarrow> None
      | Some es \<Rightarrow>
          (case collect_entries sps of
             None \<Rightarrow> None
           | Some rest \<Rightarrow> Some (es @ rest)))"

text \<open>
  \<^verbatim>\<open>FootlockerEmailParser._extract_all_size_quantity_data\<close>: the \<^verbatim>\<open>except\<close> clause around the
  loop returns the empty list, whatever had been collected.
\<close>

definition extract_all_size_quantity_data :: "span_tag list \<Rightarrow> sq_entry list" where
  "extract_all_size_quantity_data spans =
     (case collect_entries spans of None \<Rightarrow> [] | Some size_quantity_data \<Rightarrow> size_quantity_data)"

text \<open>An element of \<^verbatim>\<open>available_pairs\<close>.\<close>

record sq_pair =
  pair_size :: string
  pair_quantity :: string
  pair_distance :: nat

text \<open>\<^verbatim>\<open>abs(i - j)\<close>\<close>

definition abs_diff :: "nat \<Rightarrow> nat \<Rightarrow> nat" where
  "abs_diff i j = (if i \<le> j then j - i else i - j)"

text \<open>\<^verbatim>\<open>enumerate(size_quantity_data)\<close>\<close>

definition enumerate_entries :: "sq_entry list \<Rightarrow> (nat \<times> sq_entry) list" where
  "enumerate_entries entries = zip [0..<length entries] entries"

text \<open>
  The inner loop of the pairing: the first entry, in document order, that is a quantity
  within 3 positions of position \<open>i\<close>; the loop breaks there, whether or not the pair is
  then kept.
\<close>

definition nearby_quantity :: "sq_entry list \<Rightarrow> nat \<Rightarrow> (nat \<times> sq_entry) option" where
  "nearby_quantity entries i =
     find (\<lambda>(j, other_item). sq_type other_item = QuantityT \<and> abs_diff i j \<le> 3)
       (enumerate_entries entries)"

definition pairs_at :: "sq_entry list \<Rightarrow> (string \<times> string) set \<Rightarrow> nat \<times> sq_entry \<Rightarrow> sq_pair list" where
  "pairs_at entries used_size_quantity ie =
     (case ie of (i, item) \<Rightarrow>
        if sq_type item = SizeT then
          (case nearby_quantity entries i of
             None \<Rightarrow> []
           | Some (j, other_item) \<Rightarrow>
               if (sq_value item, sq_value other_item) \<notin> used_size_quantity
               then [\<lparr>pair_size = sq_value item, pair_quantity = sq_value other_item,
                      pair_distance = abs_diff i j\<rparr>]
               else [])
        else [])"

definition available_pairs :: "sq_entry list \<Rightarrow> (string \<times> string) set \<Rightarrow> sq_pair list" where
  "available_pairs entries used_size_quantity =
     concat (map (pairs_at entries used_size_quantity) (enumerate_entries entries))"

text \<open>Python's truth value of an optional string: \<^verbatim>\<open>None\<close> and the empty string are false.\<close>

definition truthy :: "string option \<Rightarrow> bool" where
  "truthy v = (case v of None \<Rightarrow> False | Some s \<Rightarrow> s \<noteq> [])"

text \<open>
  The last loop of the pairing: the first size and the first quantity of the document.
  It does not read \<^verbatim>\<open>used_size_quantity\<close>.
\<close>

fun first_size_quantity ::
  "sq_entry list \<Rightarrow> string option \<times> string option \<Rightarrow> string option \<times> string option" where
  "first_size_quantity [] sq = sq"
| "first_size_quantity (item # items) (sz, quantity) =
     (let sz' = (if sq_type item = SizeT \<and> \<not> truthy sz then Some (sq_value item) else sz);
          quantity' = (if sq_type item = QuantityT \<and> \<not> truthy quantity
                       then Some (sq_value item) else quantity)
      in first_size_quantity items (sz', quantity'))"

text \<open>
  \<^verbatim>\<open>FootlockerEmailParser._find_matching_size_quantity_advanced\<close>. The list is sorted by
  distance with a stable sort, as \<^verbatim>\<open>list.sort\<close> is, and its first element is taken.
\<close>

definition find_matching_size_quantity_advanced ::
  "string \<Rightarrow> sq_entry list \<Rightarrow> (string \<times> string) set \<Rightarrow> string option \<times> string option" where
  "find_matching_size_quantity_advanced unique_id size_quantity_data used_size_quantity =
     (case sort_key pair_distance (available_pairs size_quantity_data used_size_quantity) of
        pair # _ \<Rightarrow> (Some (pair_size pair), Some (pair_quantity pair))
      | [] \<Rightarrow> first_size_quantity size_quantity_data (None, None))"

text \<open>\<^verbatim>\<open>FootlockerOrderItem\<close>\<close>

record footlocker_order_item =
  fl_unique_id :: string
  fl_size :: string
  fl_quantity :: int
  fl_product_name :: string

text \<open>
  What the parser reads of an \<^verbatim>\<open>img\<close> tag: its \<^verbatim>\<open>src\<close> attribute and the product name
  that \<^verbatim>\<open>_extract_product_name_from_image\<close> finds in its container.
\<close>

record img_tag =
  img_src :: string
  img_product_name :: string

text \<open>
  \<^verbatim>\<open>re.search(r'/EBFL2/([A-Z0-9]+)', img_src)\<close>: the leftmost place where \<^verbatim>\<open>/EBFL2/\<close> is
  followed by at least one character of \<^verbatim>\<open>[A-Z0-9]\<close>; the group is the longest run of them.
\<close>

fun search_unique_id :: "string \<Rightarrow> string option" where
  "search_unique_id [] = None"
| "search_unique_id (c # cs) =
     (if prefix ''/EBFL2/'' (c # cs) \<and> takeWhile is_upper_alnum (drop 7 (c # cs)) \<noteq> []
      then Some (takeWhile is_upper_alnum (drop 7 (c # cs)))
      else search_unique_id cs)"

text \<open>
  The body of the loop of \<^verbatim>\<open>_extract_items\<close> over the product images, on the pair of
  the items found so far and the set \<^verbatim>\<open>used_size_quantity\<close>.
\<close>

definition extract_item_step ::
  "sq_entry list \<Rightarrow> img_tag \<Rightarrow> footlocker_order_item list \<times> (string \<times> string) set
     \<Rightarrow> footlocker_order_item list \<times> (string \<times> string) set" where
  "extract_item_step size_quantity_data img st =
     (case st of (items, used_size_quantity) \<Rightarrow>
        (case search_unique_id (img_src img) of
           None \<Rightarrow> (items, used_size_quantity)
         | Some unique_id \<Rightarrow>
             (case find_matching_size_quantity_advanced unique_id size_quantity_data used_size_quantity of
                (sz, quantity) \<Rightarrow>
                  (let used' = (if truthy sz \<and> truthy quantity
                                then insert (the sz, the quantity) used_size_quantity
                                else used_size_quantity)
                   in if truthy sz \<and> truthy quantity \<and> is_valid_size (the sz)
                         \<and> is_valid_quantity (the quantity) = Some True
                      then (items @ [\<lparr>fl_unique_id = unique_id, fl_size = clean_size (the sz),
                                       fl_quantity = int (nat_of_digits (strip_final_newline (the quantity))),
                                       fl_product_name = img_product_name img\<rparr>], used')
                      else (items, used')))))"

fun extract_items_loop ::
  "sq_entry list \<Rightarrow> img_tag list \<Rightarrow> footlocker_order_item list \<times> (string \<times> string) set
     \<Rightarrow> footlocker_order_item list \<times> (string \<times> string) set" where
  "extract_items_loop size_quantity_data [] st = st"
| "extract_items_loop size_quantity_data (img # imgs) st =
     extract_items_loop size_quantity_data imgs (extract_item_step size_quantity_data img st)"

text \<open>
  \<^verbatim>\<open>FootlockerEmailParser._extract_items\<close>, on the \<^verbatim>\<open>img\<close> and \<^verbatim>\<open>span\<close> tags of the
  document in document order. \<^verbatim>\<open>find_all('img', src=re.compile(r'/EBFL2/'))\<close> keeps the
  images whose \<^verbatim>\<open>src\<close> contains \<^verbatim>\<open>/EBFL2/\<close>.
\<close>

definition extract_items :: "img_tag list \<Rightarrow> span_tag list \<Rightarrow> footlocker_order_item list" where
  "extract_items imgs spans =
     (let product_images = filter (\<lambda>img. contains ''/EBFL2/'' (img_src img)) imgs;
          size_quantity_data = extract_all_size_quantity_data spans
      in fst (extract_items_loop size_quantity_data product_images ([], {})))"

section \<open>PrepWorx parser: items\<close>

text \<open>\<^verbatim>\<open>PrepWorxItem\<close>\<close>

record prepworx_item =
  pw_item_name :: string
  pw_asin :: string
  pw_quantity :: int
  pw_size :: "string option"

text \<open>\<^verbatim>\<open>[\s\-]\<close>\<close>

definition is_sep :: "char \<Rightarrow> bool" where
  "is_sep c \<longleftrightarrow> is_space c \<or> c = CHR ''-''"

text \<open>
  \<^verbatim>\<open>re.split(r'[\s\-]+', s)\<close>: the pieces between the longest runs of separators, with an
  empty piece in front of a leading run and after a final one.
\<close>

fun re_split_seps :: "string \<Rightarrow> string list" where
  "re_split_seps [] = [[]]"
| "re_split_seps (c # cs) =
     (if is_sep c then
        (if cs \<noteq> [] \<and> is_sep (hd cs) then re_split_seps cs else [] # re_split_seps cs)
      else (case re_split_seps cs of [] \<Rightarrow> [[c]] | t # ts \<Rightarrow> (c # t) # ts))"

text \<open>\<^verbatim>\<open>re.match(r'^(\d{1,2}(?:\.\d{1,2})?)$', token)\<close>\<close>

definition rx_size_token :: "string \<Rightarrow> bool" where
  "rx_size_token token =
     digits12_then
       (\<lambda>r. (case r of [] \<Rightarrow> False | p # r' \<Rightarrow> p = CHR ''.'' \<and> digits12_then (\<lambda>x. x = []) r')
             \<or> r = [])
       (strip_final_newline token)"

text \<open>
  \<^verbatim>\<open>float(match.group(1))\<close> for a token that matched, kept exactly as a number of
  hundredths; the comparisons with 2.0 and 15.0 are then comparisons with 200 and 1500.
\<close>

definition size_token_hundredths :: "string \<Rightarrow> nat" where
  "size_token_hundredths token =
     (let u = strip_final_newline token; fp = drop 1 (dropWhile is_digit u)
      in 100 * nat_of_digits (takeWhile is_digit u)
         + (if length fp = 1 then 10 * nat_of_digits fp else nat_of_digits fp))"

text \<open>The loop over the tokens, from the last one backwards.\<close>

fun first_size_token :: "string list \<Rightarrow> string option" where
  "first_size_token [] = None"
| "first_size_token (token # tokens) =
     (if rx_size_token token \<and> 200 \<le> size_token_hundredths token
         \<and> size_token_hundredths token \<le> 1500
      then Some (strip_final_newline token)
      else first_size_token tokens)"

text \<open>
  \<^verbatim>\<open>PrepWorxEmailParser.extract_size_from_item_name\<close>. The indices of
  \<^verbatim>\<open>range(len(tokens) - 1, max(0, len(tokens) - 5), -1)\<close> are those above
  \<^verbatim>\<open>max(0, len(tokens) - 5)\<close>, from the last one down.
\<close>

definition extract_size_from_item_name :: "string \<Rightarrow> string option" where
  "extract_size_from_item_name item_name =
     (let tokens = re_split_seps (strip item_name)
      in first_size_token (rev (drop (Suc (length tokens - 5)) tokens)))"

text \<open>
  \<^verbatim>\<open>re.search(r'-\s*([B][A-Z0-9]{9})\s*$', clean_item)\<close>: the leftmost dash after which
  come white space, a B with nine characters of \<^verbatim>\<open>[A-Z0-9]\<close>, and only white space up to
  the end. The result is the group.
\<close>

definition asin_here :: "string \<Rightarrow> bool" where
  "asin_here r \<longleftrightarrow>
     length r \<ge> 10 \<and> hd r = CHR ''B'' \<and> list_all is_upper_alnum (take 9 (drop 1 r))"

fun search_asin_end :: "string \<Rightarrow> string option" where
  "search_asin_end [] = None"
| "search_asin_end (c # cs) =
     (let r = dropWhile is_space cs
      in if c = CHR ''-'' \<and> asin_here r \<and> list_all is_space (drop 10 r)
         then Some (take 10 r)
         else search_asin_end cs)"


text \<open>
  \<^verbatim>\<open>s.find(needle)\<close> and \<^verbatim>\<open>s.rfind(needle)\<close>, with \<open>None\<close> for the result \<open>-1\<close>.
\<close>

definition occurrences :: "string \<Rightarrow> string \<Rightarrow> nat list" where
  "occurrences needle s = filter (\<lambda>i. prefix needle (drop i s)) [0..<Suc (length s)]"


definition rfind_str :: "string \<Rightarrow> string \<Rightarrow> nat option" where
  "rfind_str needle s = (case rev (occurrences needle s) of [] \<Rightarrow> None | i # _ \<Rightarrow> Some i)"

text \<open>
  \<^verbatim>\<open>int(s)\<close> on a string: white space around the number is ignored, one sign is allowed,
  and the digits may be grouped by single underscores. \<open>None\<close> stands for \<^verbatim>\<open>ValueError\<close>,
  which is also raised above \<open>int_max_str_digits\<close> digits.
\<close>

fun int_literal_body :: "string \<Rightarrow> bool" where
  "int_literal_body [] = False"
| "int_literal_body [c] = is_digit c"
| "int_literal_body (c # d # r) =
     (is_digit c \<and> (if d = CHR ''_'' then int_literal_body r else int_literal_body (d # r)))"

definition py_int :: "string \<Rightarrow> int option" where
  "py_int s =
     (let t = strip s;
          neg = (t \<noteq> [] \<and> hd t = CHR ''-'');
          body = (if t \<noteq> [] \<and> (hd t = CHR ''-'' \<or> hd t = CHR ''+'') then tl t else t)
      in if int_literal_body body
            \<and> length (filter (\<lambda>c. c \<noteq> CHR ''_'') body) \<le> int_max_str_digits
         then Some ((if neg then - 1 else 1) * int (nat_of_digits (filter (\<lambda>c. c \<noteq> CHR ''_'') body)))
         else None)"

text \<open>\<^verbatim>\<open>PrepWorxEmailParser._parse_item_from_table_cells\<close>\<close>

definition parse_item_from_table_cells :: "string \<Rightarrow> string \<Rightarrow> prepworx_item option" where
  "parse_item_from_table_cells item_text quantity_text =
     (let clean_item = strip item_text; clean_qty = strip quantity_text
      in case search_asin_end clean_item of
           None \<Rightarrow> None
         | Some asin \<Rightarrow>
             (case rfind_str ('' - '' @ asin) clean_item of
                None \<Rightarrow> None
              | Some asin_position \<Rightarrow>
                  (let item_name = strip (take asin_position clean_item)
                   in if item_name = [] then None
                      else (case py_int clean_qty of
                              None \<Rightarrow> None
                            | Some quantity \<Rightarrow>
                                Some \<lparr>pw_item_name = item_name, pw_asin = asin,
                                      pw_quantity = quantity,
                                      pw_size = extract_size_from_item_name item_name\<rparr>))))"













section \<open>The tables of the store\<close>

text \<open>
  The rows of the tables that the processors read and write, with the columns they use.
  Columns that only carry a copy of a clock reading or of a price
  (\<^verbatim>\<open>checked_in_at\<close>, \<^verbatim>\<open>date\<close>, \<^verbatim>\<open>rsp\<close>) are left out. A \<^verbatim>\<open>checkin\<close> row is given with the
  four columns of the duplicate check filled in: a row with NULL in one of them is equal
  to no key.
\<close>

record asin_bank_row =
  ab_id :: nat
  ab_lead_id :: string
  ab_size :: "string option"
  ab_asin :: string

record checkin_row =
  ci_order_number :: string
  ci_item_name :: string
  ci_asin_bank_id :: nat
  ci_quantity :: int

record oa_sourcing_row =
  oa_id :: nat
  oa_lead_id :: string
  oa_unique_id :: "string option"
  oa_product_sku :: "string option"

record purchase_row =
  pt_oa_sourcing_id :: nat
  pt_asin_bank_id :: "nat option"
  pt_lead_id :: string
  pt_platform :: string
  pt_order_number :: "string option"
  pt_og_qty :: int
  pt_final_qty :: int
  pt_fba_msku :: string
  pt_status :: string
  pt_audited :: bool

text \<open>
  The database as a transaction sees it: the rows of each table in the order in which a
  query without ORDER BY returns them, and the next value of the sequence behind
  \<^verbatim>\<open>asin_bank.id\<close>. The session is created with \<^verbatim>\<open>autoflush=False\<close>, so a row passed
  to \<^verbatim>\<open>db.add\<close> is seen by queries only after \<^verbatim>\<open>db.flush\<close> or \<^verbatim>\<open>db.commit\<close>; the
  rows added and not yet flushed are kept apart by the processors below.
\<close>

record database =
  retailers :: "string list"
  oa_sourcing :: "oa_sourcing_row list"
  asin_bank :: "asin_bank_row list"
  purchase_tracker :: "purchase_row list"
  checkins :: "checkin_row list"
  next_asin_id :: nat

section \<open>PrepWorx check-in processor\<close>

text \<open>\<^verbatim>\<open>PrepWorxShipmentData\<close>, with the fields that \<^verbatim>\<open>process_and_store\<close> reads.\<close>

record shipment_data =
  sd_shipment_number :: string
  sd_order_number :: string
  sd_items :: "prepworx_item list"

text \<open>The two dictionaries that \<^verbatim>\<open>process_and_store\<close> returns.\<close>

record store_success =
  r_shipment_number :: string
  r_order_number :: string
  r_total_items :: nat
  r_stored_count :: nat
  r_skipped_count :: nat
  r_errors :: "string list"
  r_label_applied :: "bool option"

record store_failure =
  f_error :: string
  f_shipment_number :: string

text \<open>
  The local variables of \<^verbatim>\<open>process_and_store\<close> during the loop over the items: the
  database as flushed so far, the check-in rows added to the session and not yet
  flushed, the two counters, the error messages and the set \<^verbatim>\<open>processed_in_batch\<close>.
\<close>

record batch_state =
  bs_db :: database
  bs_pending :: "checkin_row list"
  bs_stored_count :: nat
  bs_skipped_count :: nat
  bs_errors :: "string list"
  bs_processed_in_batch :: "(string \<times> nat \<times> string \<times> int) set"

text \<open>The four columns that the duplicate check compares.\<close>

definition checkin_key :: "checkin_row \<Rightarrow> string \<times> nat \<times> string \<times> int" where
  "checkin_key row = (ci_order_number row, ci_asin_bank_id row, ci_item_name row, ci_quantity row)"

text \<open>The row that \<^verbatim>\<open>.first()\<close> returned, changed in place.\<close>

fun update_first :: "('a \<Rightarrow> bool) \<Rightarrow> ('a \<Rightarrow> 'a) \<Rightarrow> 'a list \<Rightarrow> 'a list" where
  "update_first P f [] = []"
| "update_first P f (x # xs) = (if P x then f x # xs else x # update_first P f xs)"

text \<open>
  ``Find or create ASIN in asin\_bank'': the look-up by ASIN; when no row is found, a new
  row is added and flushed, which also flushes the check-in rows added before; when a
  row is found without a size and the item has one, the size is filled in.
\<close>

definition find_or_create_asin ::
  "string \<Rightarrow> prepworx_item \<Rightarrow> batch_state \<Rightarrow> batch_state \<times> asin_bank_row" where
  "find_or_create_asin order_number item st =
     (let db = bs_db st
      in case find (\<lambda>r. ab_asin r = pw_asin item) (asin_bank db) of
           None \<Rightarrow>
             (let asin_record = \<lparr>ab_id = next_asin_id db,
                                 ab_lead_id = (if order_number = [] then ''PREPWORX'' else order_number),
                                 ab_size = pw_size item, ab_asin = pw_asin item\<rparr>
              in (st\<lparr>bs_db := db\<lparr>asin_bank := asin_bank db @ [asin_record],
                                  checkins := checkins db @ bs_pending st,
                                  next_asin_id := Suc (next_asin_id db)\<rparr>,
                     bs_pending := []\<rparr>, asin_record))
         | Some asin_record \<Rightarrow>
             if \<not> truthy (ab_size asin_record) \<and> truthy (pw_size item)
             then (st\<lparr>bs_db := db\<lparr>asin_bank :=
                          update_first (\<lambda>r. ab_asin r = pw_asin item)
                            (\<lambda>r. r\<lparr>ab_size := pw_size item\<rparr>) (asin_bank db)\<rparr>\<rparr>,
                   asin_record\<lparr>ab_size := pw_size item\<rparr>)
             else (st, asin_record))"

text \<open>
  The body of the \<^verbatim>\<open>try\<close> inside the loop: the in-batch check, the check against the
  rows of the database, and the new check-in row.
\<close>

definition store_item :: "string \<Rightarrow> prepworx_item \<Rightarrow> batch_state \<Rightarrow> batch_state" where
  "store_item order_number item st =
     (case find_or_create_asin order_number item st of
        (st1, asin_record) \<Rightarrow>
          (let batch_key = (order_number, ab_id asin_record, pw_item_name item, pw_quantity item)
           in if batch_key \<in> bs_processed_in_batch st1
              then st1\<lparr>bs_skipped_count := bs_skipped_count st1 + 1\<rparr>
              else if find (\<lambda>row. checkin_key row = batch_key) (checkins (bs_db st1)) \<noteq> None
              then st1\<lparr>bs_skipped_count := bs_skipped_count st1 + 1\<rparr>
              else st1\<lparr>bs_processed_in_batch := insert batch_key (bs_processed_in_batch st1),
                       bs_pending := bs_pending st1
                          @ [\<lparr>ci_order_number = order_number, ci_item_name = pw_item_name item,
                               ci_asin_bank_id = ab_id asin_record,
                               ci_quantity = pw_quantity item\<rparr>],
                       bs_stored_count := bs_stored_count st1 + 1\<rparr>))"

text \<open>
  The two queries of a turn of the loop, either of which can raise: the look-up of the
  ASIN, before anything of the item is written, and the look-up of an existing check-in
  row, after the ASIN bank row was found or created.
\<close>

datatype fault_point = Asin_lookup | Checkin_lookup

text \<open>
  The body of the \<^verbatim>\<open>try\<close> when the look-up of an existing check-in row raises \<open>e\<close>: what
  was done to the ASIN bank stays in the session (a new row is already flushed), an entry
  found in \<^verbatim>\<open>processed_in_batch\<close> is skipped before the query is reached, and otherwise
  the \<^verbatim>\<open>except\<close> clause records the error.
\<close>

definition store_item_failing ::
  "string \<Rightarrow> string \<Rightarrow> prepworx_item \<Rightarrow> batch_state \<Rightarrow> batch_state" where
  "store_item_failing e order_number item st =
     (case find_or_create_asin order_number item st of
        (st1, asin_record) \<Rightarrow>
          (let batch_key = (order_number, ab_id asin_record, pw_item_name item, pw_quantity item)
           in if batch_key \<in> bs_processed_in_batch st1
              then st1\<lparr>bs_skipped_count := bs_skipped_count st1 + 1\<rparr>
              else st1\<lparr>bs_errors := bs_errors st1
                         @ [''Error storing item '' @ pw_asin item @ '': '' @ e]\<rparr>))"

text \<open>
  One turn of the loop. \<open>item_fault\<close> gives, for an item, the query that raises while the
  item is handled and the text of the exception, if one is raised.
\<close>

definition process_item ::
  "(prepworx_item \<Rightarrow> (fault_point \<times> string) option) \<Rightarrow> string \<Rightarrow> prepworx_item
     \<Rightarrow> batch_state \<Rightarrow> batch_state" where
  "process_item item_fault order_number item st =
     (case item_fault item of
        Some (Asin_lookup, e) \<Rightarrow>
          st\<lparr>bs_errors := bs_errors st @ [''Error storing item '' @ pw_asin item @ '': '' @ e]\<rparr>
      | Some (Checkin_lookup, e) \<Rightarrow> store_item_failing e order_number item st
      | None \<Rightarrow> store_item order_number item st)"

fun process_items ::
  "(prepworx_item \<Rightarrow> (fault_point \<times> string) option) \<Rightarrow> string \<Rightarrow> prepworx_item list
     \<Rightarrow> batch_state \<Rightarrow> batch_state" where
  "process_items item_fault order_number [] st = st"
| "process_items item_fault order_number (item # items) st =
     process_items item_fault order_number items (process_item item_fault order_number item st)"

definition initial_batch :: "database \<Rightarrow> batch_state" where
  "initial_batch db =
     \<lparr>bs_db = db, bs_pending = [], bs_stored_count = 0, bs_skipped_count = 0, bs_errors = [],
      bs_processed_in_batch = {}\<rparr>"

text \<open>
  \<^verbatim>\<open>PrepWorxCheckinProcessor.process_and_store\<close>. \<open>commit_fault\<close> is the text of the
  exception that \<^verbatim>\<open>db.commit()\<close> raises, if it does: the transaction is then rolled back
  and the database is as it was. \<open>apply_gmail_label\<close> stands for the method of that name.
\<close>

definition process_and_store ::
  "(prepworx_item \<Rightarrow> (fault_point \<times> string) option) \<Rightarrow> string option \<Rightarrow> (string \<Rightarrow> bool)
     \<Rightarrow> database \<Rightarrow> shipment_data \<Rightarrow> string option \<Rightarrow> (store_failure + store_success) \<times> database" where
  "process_and_store item_fault commit_fault apply_gmail_label db shipment message_id =
     (let st = process_items item_fault (sd_order_number shipment) (sd_items shipment)
                 (initial_batch db)
      in case commit_fault of
           Some e \<Rightarrow> (Inl \<lparr>f_error = e, f_shipment_number = sd_shipment_number shipment\<rparr>, db)
         | None \<Rightarrow>
             (Inr \<lparr>r_shipment_number = sd_shipment_number shipment,
                   r_order_number = sd_order_number shipment,
                   r_total_items = length (sd_items shipment),
                   r_stored_count = bs_stored_count st,
                   r_skipped_count = bs_skipped_count st,
                   r_errors = bs_errors st,
                   r_label_applied =
                     (if truthy message_id \<and> bs_stored_count st > 0
                      then Some (apply_gmail_label (the message_id)) else None)\<rparr>,
              (bs_db st)\<lparr>checkins := checkins (bs_db st) @ bs_pending st\<rparr>))"

section \<open>Example data\<close>

text \<open>
  A small store and two documents, used to run the processors on concrete inputs: one
  retailer, one sourcing lead with the unique id \<open>HJ7395\<close>, and one ASIN bank row that
  has no size yet.
\<close>

definition example_db :: database where
  "example_db =
     \<lparr>retailers = [''Foot Locker''],
      oa_sourcing = [\<lparr>oa_id = 1, oa_lead_id = ''L-100'', oa_unique_id = Some ''HJ7395'',
                      oa_product_sku = Some ''HJ7395-100''\<rparr>],
      asin_bank = [\<lparr>ab_id = 1, ab_lead_id = ''L-100'', ab_size = None, ab_asin = ''B09NM2VXF8''\<rparr>],
      purchase_tracker = [],
      checkins = [],
      next_asin_id = 2\<rparr>"

definition cloudgo_item :: prepworx_item where
  "cloudgo_item =
     \<lparr>pw_item_name = ''On Running Cloudgo Black Eclipse 8.5 55.98635'', pw_asin = ''B09NM2VXF8'',
      pw_quantity = 0, pw_size = Some ''8.5''\<rparr>"

definition airmax_item :: prepworx_item where
  "airmax_item =
     \<lparr>pw_item_name = ''Nike Air Max 270 GS Black/Orange/Red 6.5 943345-037'',
      pw_asin = ''B0DJDXB819'', pw_quantity = 2, pw_size = Some ''6.5''\<rparr>"

definition example_shipment :: shipment_data where
  "example_shipment =
     \<lparr>sd_shipment_number = ''P0017327917518'', sd_order_number = ''P0017327917518'',
      sd_items = [airmax_item, airmax_item, cloudgo_item]\<rparr>"

text \<open>The database raises while the Cloudgo item is handled, and for no other item.\<close>

definition cloudgo_fault :: "prepworx_item \<Rightarrow> (fault_point \<times> string) option" where
  "cloudgo_fault item =
     (if pw_asin item = ''B09NM2VXF8'' then Some (Asin_lookup, ''connection lost'') else None)"

definition airmax_fault :: "prepworx_item \<Rightarrow> (fault_point \<times> string) option" where
  "airmax_fault item =
     (if pw_asin item = ''B0DJDXB819'' then Some (Checkin_lookup, ''connection lost'') else None)"

definition no_fault :: "prepworx_item \<Rightarrow> (fault_point \<times> string) option" where
  "no_fault item = None"

text \<open>The example store after the example shipment has been stored without faults.\<close>

definition example_db_after :: database where
  "example_db_after =
     \<lparr>retailers = [''Foot Locker''],
      oa_sourcing = [\<lparr>oa_id = 1, oa_lead_id = ''L-100'', oa_unique_id = Some ''HJ7395'',
                      oa_product_sku = Some ''HJ7395-100''\<rparr>],
      asin_bank = [\<lparr>ab_id = 1, ab_lead_id = ''L-100'', ab_size = Some ''8.5'', ab_asin = ''B09NM2VXF8''\<rparr>,
                   \<lparr>ab_id = 2, ab_lead_id = ''P0017327917518'', ab_size = Some ''6.5'',
                     ab_asin = ''B0DJDXB819''\<rparr>],
      purchase_tracker = [],
      checkins = [\<lparr>ci_order_number = ''P0017327917518'',
                    ci_item_name = ''Nike Air Max 270 GS Black/Orange/Red 6.5 943345-037'',
                    ci_asin_bank_id = 2, ci_quantity = 2\<rparr>,
                  \<lparr>ci_order_number = ''P0017327917518'',
                    ci_item_name = ''On Running Cloudgo Black Eclipse 8.5 55.98635'',
                    ci_asin_bank_id = 1, ci_quantity = 0\<rparr>],
      next_asin_id = 3\<rparr>"

section \<open>Retailer order processor: Footlocker\<close>






























section \<open>Quantities kept by the loop of the check-in processor\<close>

text \<open>The number of items that the counters and the error list account for.\<close>

definition accounted :: "batch_state \<Rightarrow> nat" where
  "accounted st = bs_stored_count st + bs_skipped_count st + length (bs_errors st)"

text \<open>No two rows of the ASIN bank carry the same ASIN.\<close>

definition asins_distinct :: "database \<Rightarrow> bool" where
  "asins_distinct db = distinct (map ab_asin (asin_bank db))"

text \<open>
  What the loop keeps true of the check-in rows written since the run began, flushed or
  still pending: their keys are distinct, none is the key of a row that was in the
  database before the run, there are as many as the stored count says, and each key is
  in \<^verbatim>\<open>processed_in_batch\<close>.
\<close>

definition dedup_inv :: "database \<Rightarrow> batch_state \<Rightarrow> bool" where
  "dedup_inv db0 st \<longleftrightarrow>
     (\<exists>fl. checkins (bs_db st) = checkins db0 @ fl
        \<and> distinct (map checkin_key (fl @ bs_pending st))
        \<and> set (map checkin_key (fl @ bs_pending st)) \<inter> set (map checkin_key (checkins db0)) = {}
        \<and> length (fl @ bs_pending st) = bs_stored_count st
        \<and> set (map checkin_key (fl @ bs_pending st)) \<subseteq> bs_processed_in_batch st)"

text \<open>Two entries of a shipment that agree on ASIN, item name and quantity.\<close>

definition same_entry :: "prepworx_item \<Rightarrow> prepworx_item \<Rightarrow> bool" where
  "same_entry a b \<longleftrightarrow>
     pw_asin a = pw_asin b \<and> pw_item_name a = pw_item_name b \<and> pw_quantity a = pw_quantity b"

text \<open>
  An item has been met: the look-up by its ASIN finds a row, and the key made of that
  row's id is in \<^verbatim>\<open>processed_in_batch\<close> or on a check-in row of the database.
\<close>

definition seen :: "string \<Rightarrow> prepworx_item \<Rightarrow> batch_state \<Rightarrow> bool" where
  "seen order_number item st =
     (case find (\<lambda>r. ab_asin r = pw_asin item) (asin_bank (bs_db st)) of
        None \<Rightarrow> False
      | Some r \<Rightarrow>
          (order_number, ab_id r, pw_item_name item, pw_quantity item) \<in> bs_processed_in_batch st
          \<or> find (\<lambda>row. checkin_key row = (order_number, ab_id r, pw_item_name item, pw_quantity item))
               (checkins (bs_db st)) \<noteq> None)"

text \<open>
  The decimal sizes: one or two digits, a dot and one digit; and the strings that
  \<^verbatim>\<open>_clean_size\<close> takes for one, which may end with one newline after them.
\<close>

definition decimal_digits :: "string \<Rightarrow> bool" where
  "decimal_digits t =
     (case t of
        [a, p, f] \<Rightarrow> is_digit a \<and> p = CHR ''.'' \<and> is_digit f
      | [a, b, p, f] \<Rightarrow> is_digit a \<and> is_digit b \<and> p = CHR ''.'' \<and> is_digit f
      | _ \<Rightarrow> False)"

definition decimal_shape :: "string \<Rightarrow> bool" where
  "decimal_shape s \<longleftrightarrow>
     decimal_digits s \<or> (s \<noteq> [] \<and> last s = CHR 0x0A \<and> decimal_digits (butlast s))"

section \<open>Size normalisation\<close>

lemma strip_final_newline_no_newline:
  "CHR 0x0A \<notin> set s \<Longrightarrow> strip_final_newline s = s"
  by (cases s rule: rev_cases) (auto simp: strip_final_newline_def)

lemma rx_decimal_size_length:
  assumes "rx_decimal_size s"
  shows "length (strip_final_newline s) = 3 \<or> length (strip_final_newline s) = 4"
proof -
  obtain t where t: "t = strip_final_newline s" by simp
  from assms have "digits12_then (\<lambda>r. case r of [p, f] \<Rightarrow> p = CHR ''.'' \<and> is_digit f | _ \<Rightarrow> False) t"
    by (simp add: rx_decimal_size_def t)
  then have "length t = 3 \<or> length t = 4"
    by (auto simp: digits12_then_def split: list.splits)
  then show ?thesis by (simp add: t)
qed

lemma is_digit_cases:
  assumes "is_digit c"
  shows "c = CHR ''0'' \<or> c = CHR ''1'' \<or> c = CHR ''2'' \<or> c = CHR ''3'' \<or> c = CHR ''4''
       \<or> c = CHR ''5'' \<or> c = CHR ''6'' \<or> c = CHR ''7'' \<or> c = CHR ''8'' \<or> c = CHR ''9''"
  using assms by (simp add: is_digit_def)

lemma digit_facts:
  assumes "is_digit c"
  shows "digit_val c < 10 \<and> digit_char (digit_val c) = c \<and> (digit_val c = 0 \<longleftrightarrow> c = CHR ''0'')"
  using is_digit_cases [OF assms]
  by (elim disjE; hypsubst; code_simp)

lemma digit_not_special:
  assumes "is_digit c"
  shows "c \<noteq> CHR 0x0A" and "c \<noteq> CHR ''.''"
  using assms by (auto simp: is_digit_def)

lemma dot_not_digit: "\<not> is_digit CHR ''.''"
  by (simp add: is_digit_def)

lemma div_mod_tenths:
  "r < 10 \<Longrightarrow> (10 * q + r) div 10 = (q::nat) \<and> (10 * q + r) mod 10 = r"
  by simp

lemma str_nat_digit: "n < 10 \<Longrightarrow> str_nat n = [digit_char n]"
  by (subst str_nat.simps) simp

lemma str_nat_two_digits:
  assumes "is_digit a" and "is_digit b"
  shows "str_nat (10 * digit_val a + digit_val b) = (if a = CHR ''0'' then [b] else [a, b])"
proof -
  note fa = digit_facts [OF assms(1)] and fb = digit_facts [OF assms(2)]
  show ?thesis
  proof (cases "a = CHR ''0''")
    case True
    with fa have "digit_val a = 0" by simp
    with fb True show ?thesis by (simp add: str_nat_digit)
  next
    case False
    with fa have pos: "0 < digit_val a" by simp
    then have ge: "\<not> 10 * digit_val a + digit_val b < 10" by simp
    from fb have d: "(10 * digit_val a + digit_val b) div 10 = digit_val a"
      and m: "(10 * digit_val a + digit_val b) mod 10 = digit_val b" by simp_all
    have "str_nat (10 * digit_val a + digit_val b)
        = str_nat ((10 * digit_val a + digit_val b) div 10)
          @ [digit_char ((10 * digit_val a + digit_val b) mod 10)]"
      using ge by (subst str_nat.simps) simp
    also have "\<dots> = str_nat (digit_val a) @ [digit_char (digit_val b)]"
      unfolding d m ..
    also have "\<dots> = [a, b]" using fa fb by (simp add: str_nat_digit)
    finally show ?thesis using False by simp
  qed
qed

lemma digits12_then_decimal:
  "digits12_then (\<lambda>r. case r of [p, f] \<Rightarrow> p = CHR ''.'' \<and> is_digit f | _ \<Rightarrow> False) t
   = decimal_digits t"
  by (auto simp: digits12_then_def decimal_digits_def dot_not_digit split: list.splits)

lemma decimal_digits_last:
  assumes "decimal_digits t"
  shows "t \<noteq> []" and "last t \<noteq> CHR 0x0A"
  using assms
  by (auto simp: decimal_digits_def split: list.splits dest: digit_not_special(1))

lemma rx_decimal_size_shape: "rx_decimal_size s = decimal_shape s"
proof (cases "s \<noteq> [] \<and> last s = CHR 0x0A")
  case True
  then have "\<not> decimal_digits s" using decimal_digits_last(2) by blast
  with True show ?thesis
    by (simp add: rx_decimal_size_def digits12_then_decimal decimal_shape_def
        strip_final_newline_def)
next
  case False
  then show ?thesis
    by (auto simp: rx_decimal_size_def digits12_then_decimal decimal_shape_def
        strip_final_newline_def)
qed

lemma clean_size_decimal_digits:
  assumes "decimal_digits t" and "strip_final_newline s = t"
  shows "clean_size s
       = (let num = 10 * nat_of_digits (takeWhile is_digit t) + digit_val (last t)
          in if num mod 10 = 0 then str_nat (num div 10)
             else str_nat (num div 10) @ ''.'' @ str_nat (num mod 10))"
proof -
  from assms have "rx_decimal_size s"
    by (simp add: rx_decimal_size_def digits12_then_decimal)
  with assms(2) show ?thesis
    by (simp add: clean_size_def float_tenths_def Let_def)
qed

lemma clean_size_one_digit:
  assumes "is_digit a" and "is_digit f"
    and "strip_final_newline s = [a, CHR ''.'', f]"
  shows "clean_size s = [a] @ (if f = CHR ''0'' then [] else [CHR ''.'', f])"
proof -
  note fa = digit_facts [OF assms(1)] and ff = digit_facts [OF assms(2)]
  from assms(1,2) have dd: "decimal_digits [a, CHR ''.'', f]"
    by (simp add: decimal_digits_def)
  from assms(1) have tw: "takeWhile is_digit [a, CHR ''.'', f] = [a]"
    by (simp add: dot_not_digit)
  have n: "nat_of_digits [a] = digit_val a" by (simp add: nat_of_digits_def)
  have la: "last [a, CHR ''.'', f] = f" by simp
  from ff have lt: "digit_val f < 10" by blast
  note dm = div_mod_tenths [OF lt, of "digit_val a"]
  have "clean_size s
      = (if digit_val f = 0 then str_nat (digit_val a)
         else str_nat (digit_val a) @ ''.'' @ str_nat (digit_val f))"
    unfolding clean_size_decimal_digits [OF dd assms(3)] tw n la Let_def
      dm [THEN conjunct1] dm [THEN conjunct2]
    by (rule refl)
  with fa ff show ?thesis by (simp add: str_nat_digit)
qed

lemma clean_size_two_digits:
  assumes "is_digit a" and "is_digit b" and "is_digit f"
    and "strip_final_newline s = [a, b, CHR ''.'', f]"
  shows "clean_size s
       = (if a = CHR ''0'' then [b] else [a, b]) @ (if f = CHR ''0'' then [] else [CHR ''.'', f])"
proof -
  note ff = digit_facts [OF assms(3)]
  from assms(1-3) have dd: "decimal_digits [a, b, CHR ''.'', f]"
    by (simp add: decimal_digits_def)
  from assms(1,2) have tw: "takeWhile is_digit [a, b, CHR ''.'', f] = [a, b]"
    by (simp add: dot_not_digit)
  have n: "nat_of_digits [a, b] = 10 * digit_val a + digit_val b"
    by (simp add: nat_of_digits_def)
  have la: "last [a, b, CHR ''.'', f] = f" by simp
  from ff have lt: "digit_val f < 10" by blast
  note dm = div_mod_tenths [OF lt, of "10 * digit_val a + digit_val b"]
  have "clean_size s
      = (if digit_val f = 0 then str_nat (10 * digit_val a + digit_val b)
         else str_nat (10 * digit_val a + digit_val b) @ ''.'' @ str_nat (digit_val f))"
    unfolding clean_size_decimal_digits [OF dd assms(4)] tw n la Let_def
      dm [THEN conjunct1] dm [THEN conjunct2]
    by (rule refl)
  with ff show ?thesis
    by (simp add: str_nat_digit str_nat_two_digits [OF assms(1,2)])
qed

lemma strip_final_newline_simps:
  "last t \<noteq> CHR 0x0A \<Longrightarrow> strip_final_newline t = t"
  "strip_final_newline (t @ [CHR 0x0A]) = t"
  by (simp_all add: strip_final_newline_def)

text \<open>
  C5. Size normalisation strips a redundant trailing \<open>.0\<close> and leading zeros from decimal
  size strings and leaves other sizes unchanged: \<open>06.0\<close> becomes \<open>6\<close>, \<open>10.5\<close> stays
  \<open>10.5\<close> and \<open>14.0\<close> becomes \<open>14\<close>. In general, for digits \<open>a\<close>, \<open>b\<close> and \<open>f\<close>, the size
  \<open>a.f\<close> becomes \<open>a\<close> followed by \<open>.f\<close> unless \<open>f\<close> is 0, and the size \<open>ab.f\<close> becomes \<open>ab\<close>,
  without \<open>a\<close> when it is 0, followed by \<open>.f\<close> unless \<open>f\<close> is 0; a newline that ends the
  string is dropped with it. Every string that is not one or two digits, a dot and a
  digit (with or without a newline at its end) is returned as it is.
\<close>

theorem clean_size_normalises:
  "clean_size ''06.0'' = ''6'' \<and> clean_size ''10.5'' = ''10.5'' \<and> clean_size ''14.0'' = ''14''
   \<and> (is_digit a \<and> is_digit f \<longrightarrow>
        clean_size [a, CHR ''.'', f] = [a] @ (if f = CHR ''0'' then [] else [CHR ''.'', f])
        \<and> clean_size [a, CHR ''.'', f, CHR 0x0A]
          = [a] @ (if f = CHR ''0'' then [] else [CHR ''.'', f]))
   \<and> (is_digit a \<and> is_digit b \<and> is_digit f \<longrightarrow>
        clean_size [a, b, CHR ''.'', f]
          = (if a = CHR ''0'' then [b] else [a, b]) @ (if f = CHR ''0'' then [] else [CHR ''.'', f])
        \<and> clean_size [a, b, CHR ''.'', f, CHR 0x0A]
          = (if a = CHR ''0'' then [b] else [a, b]) @ (if f = CHR ''0'' then [] else [CHR ''.'', f]))
   \<and> (\<not> decimal_shape s \<longrightarrow> clean_size s = s)"
proof (intro conjI impI)
  show "clean_size ''06.0'' = ''6''" by code_simp
  show "clean_size ''10.5'' = ''10.5''" by code_simp
  show "clean_size ''14.0'' = ''14''" by code_simp
next
  assume h: "is_digit a \<and> is_digit f"
  then have l: "last [a, CHR ''.'', f] \<noteq> CHR 0x0A" using digit_not_special(1) by simp
  have s1: "strip_final_newline [a, CHR ''.'', f] = [a, CHR ''.'', f]"
    by (rule strip_final_newline_simps(1) [OF l])
  have s2: "strip_final_newline [a, CHR ''.'', f, CHR 0x0A] = [a, CHR ''.'', f]"
    using strip_final_newline_simps(2) [of "[a, CHR ''.'', f]"] by simp
  from h show "clean_size [a, CHR ''.'', f] = [a] @ (if f = CHR ''0'' then [] else [CHR ''.'', f])"
    using clean_size_one_digit [OF _ _ s1] by blast
  from h show "clean_size [a, CHR ''.'', f, CHR 0x0A]
      = [a] @ (if f = CHR ''0'' then [] else [CHR ''.'', f])"
    using clean_size_one_digit [OF _ _ s2] by blast
next
  assume h: "is_digit a \<and> is_digit b \<and> is_digit f"
  then have l: "last [a, b, CHR ''.'', f] \<noteq> CHR 0x0A" using digit_not_special(1) by simp
  have s1: "strip_final_newline [a, b, CHR ''.'', f] = [a, b, CHR ''.'', f]"
    by (rule strip_final_newline_simps(1) [OF l])
  have s2: "strip_final_newline [a, b, CHR ''.'', f, CHR 0x0A] = [a, b, CHR ''.'', f]"
    using strip_final_newline_simps(2) [of "[a, b, CHR ''.'', f]"] by simp
  from h show "clean_size [a, b, CHR ''.'', f]
      = (if a = CHR ''0'' then [b] else [a, b]) @ (if f = CHR ''0'' then [] else [CHR ''.'', f])"
    using clean_size_two_digits [OF _ _ _ s1] by blast
  from h show "clean_size [a, b, CHR ''.'', f, CHR 0x0A]
      = (if a = CHR ''0'' then [b] else [a, b]) @ (if f = CHR ''0'' then [] else [CHR ''.'', f])"
    using clean_size_two_digits [OF _ _ _ s2] by blast
next
  assume "\<not> decimal_shape s"
  then show "clean_size s = s"
    by (simp add: clean_size_def rx_decimal_size_shape)
qed

theorem clean_size_normalises_witness:
  "is_digit CHR ''0'' \<and> is_digit CHR ''9'' \<and> is_digit CHR ''5''
   \<and> clean_size ''0.5'' = ''0.5'' \<and> clean_size ''09.5'' = ''9.5''
   \<and> clean_size [CHR ''0'', CHR ''9'', CHR ''.'', CHR ''5'', CHR 0x0A] = ''9.5''
   \<and> decimal_shape ''09.5'' \<and> \<not> decimal_shape ''12Y'' \<and> clean_size ''12Y'' = ''12Y''"
proof -
  have d0: "is_digit CHR ''0''" and d9: "is_digit CHR ''9''" and d5: "is_digit CHR ''5''"
    by code_simp+
  have sh: "decimal_shape ''09.5''" by code_simp
  have h: "\<not> decimal_shape ''12Y''" by code_simp
  note t = clean_size_normalises [of "CHR ''0''" "CHR ''5''" "CHR ''9''" "''12Y''"]
  from t d0 d5 have a: "clean_size ''0.5'' = ''0.5''" by simp
  from t d0 d9 d5 have b: "clean_size ''09.5'' = ''9.5''" by simp
  from t d0 d9 d5 have c: "clean_size [CHR ''0'', CHR ''9'', CHR ''.'', CHR ''5'', CHR 0x0A] = ''9.5''"
    by simp
  from t h have e: "clean_size ''12Y'' = ''12Y''" by blast
  from d0 d9 d5 a b c sh h e show ?thesis by blast
qed

section \<open>The size filter of the Footlocker parser\<close>

lemma is_digit_not_newline: "is_digit c \<Longrightarrow> c \<noteq> CHR 0x0A"
  by (auto simp: is_digit_def)

lemma is_digit_not_dot: "is_digit c \<Longrightarrow> c \<noteq> CHR ''.''"
  by (auto simp: is_digit_def)

lemma strip_final_newline_digits:
  "list_all is_digit ds \<Longrightarrow> strip_final_newline ds = ds"
  by (rule strip_final_newline_no_newline) (auto simp: list_all_iff dest: is_digit_not_newline)

lemma strip_final_newline_decimal:
  "list_all is_digit ds \<Longrightarrow> is_digit f \<Longrightarrow> strip_final_newline (ds @ ''.'' @ [f]) = ds @ ''.'' @ [f]"
  by (rule strip_final_newline_no_newline) (auto simp: list_all_iff dest: is_digit_not_newline)

lemma short_list_cases:
  assumes "length ds = 1 \<or> length ds = 2"
  obtains a where "ds = [a]" | a b where "ds = [a, b]"
  using assms by (cases ds; cases "tl ds"; cases "tl (tl ds)") auto

lemma integer_size_valid:
  assumes "list_all is_digit ds" and "length ds = 1 \<or> length ds = 2"
  shows "is_valid_size ds = (4 \<le> nat_of_digits ds \<and> nat_of_digits ds \<le> 18)"
proof -
  have s: "strip_final_newline ds = ds" using assms(1) by (rule strip_final_newline_digits)
  from assms(2) show ?thesis
  proof (cases rule: short_list_cases)
    case (1 a)
    with assms(1) s show ?thesis
      by (simp add: is_valid_size_def rx_decimal_size_def rx_integer_size_def digits12_then_def
          int_of_size_def)
  next
    case (2 a b)
    with assms(1) s show ?thesis
      by (simp add: is_valid_size_def rx_decimal_size_def rx_integer_size_def digits12_then_def
          int_of_size_def)
  qed
qed

lemma decimal_size_valid:
  assumes "list_all is_digit ds" and "length ds = 1 \<or> length ds = 2" and "is_digit f"
  shows "is_valid_size (ds @ ''.'' @ [f])"
proof -
  have s: "strip_final_newline (ds @ ''.'' @ [f]) = ds @ ''.'' @ [f]"
    using assms(1,3) by (rule strip_final_newline_decimal)
  from assms(2) show ?thesis
  proof (cases rule: short_list_cases)
    case (1 a)
    with assms(1,3) s show ?thesis
      by (simp add: is_valid_size_def rx_decimal_size_def digits12_then_def is_digit_not_dot)
  next
    case (2 a b)
    with assms(1,3) s show ?thesis
      by (simp add: is_valid_size_def rx_decimal_size_def digits12_then_def)
  qed
qed


text \<open>
  C4. The claim is that a candidate size outside the range 2.0 to 20.0, such as \<open>99.0\<close>,
  is never accepted as the size of an item. \<^verbatim>\<open>_is_valid_size\<close> checks a range (4 to 18)
  for a candidate of one or two digits only; its first pattern accepts every string of
  one or two digits, a dot and a digit (lemma \<open>decimal_size_valid\<close>). So the candidate
  \<open>99.0\<close> passes the filter, a document whose only size candidate is \<open>99.0\<close> yields an
  item of size \<open>99\<close>, and so does a document in which \<open>99.0\<close> is the first candidate and
  the plausible size \<open>08.0\<close> comes after it.
\<close>

theorem size_99_accepted:
  "is_valid_size ''99.0''
   \<and> extract_items
        [\<lparr>img_src = ''https://images.footlocker.com/is/image/EBFL2/HJ7395'', img_product_name = ''Nike Dunk Low''\<rparr>]
        [\<lparr>span_text = ''99.0'', parent_text = Some ''Size99.0''\<rparr>,
         \<lparr>span_text = ''1'', parent_text = Some ''Qty1''\<rparr>]
     = [\<lparr>fl_unique_id = ''HJ7395'', fl_size = ''99'', fl_quantity = 1, fl_product_name = ''Nike Dunk Low''\<rparr>]
   \<and> extract_items
        [\<lparr>img_src = ''https://images.footlocker.com/is/image/EBFL2/HJ7395'', img_product_name = ''Nike Dunk Low''\<rparr>]
        [\<lparr>span_text = ''99.0'', parent_text = Some ''Size99.0''\<rparr>,
         \<lparr>span_text = ''1'', parent_text = Some ''Qty1''\<rparr>,
         \<lparr>span_text = ''08.0'', parent_text = Some ''Size08.0''\<rparr>,
         \<lparr>span_text = ''2'', parent_text = Some ''Qty2''\<rparr>]
     = [\<lparr>fl_unique_id = ''HJ7395'', fl_size = ''99'', fl_quantity = 1, fl_product_name = ''Nike Dunk Low''\<rparr>]
   \<and> \<not> is_valid_size ''99''"
  by code_simp

section \<open>Pairing of sizes and quantities\<close>

text \<open>
  C3. The pairing is meant to give each item a pair of its own. With two product images
  and a single size and quantity candidate (8 and 1), the first image takes the pair
  (8, 1); for the second image no unused pair is left, and the last loop of
  \<^verbatim>\<open>_find_matching_size_quantity_advanced\<close>, which does not read the set of used pairs,
  returns (8, 1) again: both items carry the same pair.
\<close>

theorem pairing_fallback_reuses_pair:
  "find_matching_size_quantity_advanced ''FZ5808''
       [\<lparr>sq_type = SizeT, sq_value = ''8'', sq_context = ''Size8''\<rparr>,
        \<lparr>sq_type = QuantityT, sq_value = ''1'', sq_context = ''Qty1''\<rparr>]
       {(''8'', ''1'')} = (Some ''8'', Some ''1'')
   \<and> extract_items
        [\<lparr>img_src = ''https://images.footlocker.com/is/image/EBFL2/HJ7395'', img_product_name = ''Nike Dunk Low''\<rparr>,
         \<lparr>img_src = ''https://images.footlocker.com/is/image/EBFL2/FZ5808'', img_product_name = ''Jordan Retro 4''\<rparr>]
        [\<lparr>span_text = ''8'', parent_text = Some ''Size8''\<rparr>,
         \<lparr>span_text = ''1'', parent_text = Some ''Qty1''\<rparr>]
     = [\<lparr>fl_unique_id = ''HJ7395'', fl_size = ''8'', fl_quantity = 1, fl_product_name = ''Nike Dunk Low''\<rparr>,
        \<lparr>fl_unique_id = ''FZ5808'', fl_size = ''8'', fl_quantity = 1, fl_product_name = ''Jordan Retro 4''\<rparr>]"
  by code_simp

text \<open>
  The scenario with the candidates 8, 1, 9, 2 in document order: the two items receive
  the distinct pairs (8, 1) and (9, 1); the inner loop stops at the first quantity within
  3 positions of the size 9, which is the quantity 1.
\<close>

lemma pairing_two_anchor_scenario:
  "extract_items
        [\<lparr>img_src = ''https://images.footlocker.com/is/image/EBFL2/HJ7395'', img_product_name = ''Nike Dunk Low''\<rparr>,
         \<lparr>img_src = ''https://images.footlocker.com/is/image/EBFL2/FZ5808'', img_product_name = ''Jordan Retro 4''\<rparr>]
        [\<lparr>span_text = ''8'', parent_text = Some ''Size8''\<rparr>,
         \<lparr>span_text = ''1'', parent_text = Some ''Qty1''\<rparr>,
         \<lparr>span_text = ''9'', parent_text = Some ''Size9''\<rparr>,
         \<lparr>span_text = ''2'', parent_text = Some ''Qty2''\<rparr>]
     = [\<lparr>fl_unique_id = ''HJ7395'', fl_size = ''8'', fl_quantity = 1, fl_product_name = ''Nike Dunk Low''\<rparr>,
        \<lparr>fl_unique_id = ''FZ5808'', fl_size = ''9'', fl_quantity = 1, fl_product_name = ''Jordan Retro 4''\<rparr>]"
  by code_simp

section \<open>PrepWorx parser: quantities and the table row scenario\<close>


lemma is_digit_not_amp: "is_digit c \<Longrightarrow> c \<noteq> CHR ''&''"
  by (auto simp: is_digit_def)





subsection \<open>Replacement leaves a tail without the first character of the pattern alone\<close>





subsection \<open>A number at the end of a line after a tab\<close>








subsection \<open>The integer of a quantity token\<close>







subsection \<open>What a parsed text line says about the line\<close>




subsection \<open>The patterns of a text line without a tab\<close>



















text \<open>
  C8. The table row with the item cell
  \<open>Nike Air Max 270 GS Black/Orange/Red 6.5 943345-037 - B0DJDXB819\<close> and the quantity cell
  \<open>2\<close> is parsed to exactly the item name before the ASIN, the ASIN \<open>B0DJDXB819\<close>, the
  quantity 2 and the size \<open>6.5\<close>.
\<close>

theorem prepworx_table_row_scenario:
  "parse_item_from_table_cells
     ''Nike Air Max 270 GS Black/Orange/Red 6.5 943345-037 - B0DJDXB819'' ''2''
   = Some \<lparr>pw_item_name = ''Nike Air Max 270 GS Black/Orange/Red 6.5 943345-037'',
            pw_asin = ''B0DJDXB819'', pw_quantity = 2, pw_size = Some ''6.5''\<rparr>"
  by code_simp




section \<open>PrepWorx check-in processor: counters and the ASIN bank\<close>

subsection \<open>The counters partition the items\<close>


lemma find_or_create_asin_counters:
  assumes "find_or_create_asin order_number item st = (st1, r)"
  shows "bs_stored_count st1 = bs_stored_count st" and "bs_skipped_count st1 = bs_skipped_count st"
    and "bs_errors st1 = bs_errors st"
    and "bs_processed_in_batch st1 = bs_processed_in_batch st"
  using assms unfolding find_or_create_asin_def Let_def
  by (auto split: option.splits if_splits)

lemma store_item_accounted: "accounted (store_item order_number item st) = Suc (accounted st)"
proof -
  obtain st1 r where f: "find_or_create_asin order_number item st = (st1, r)"
    by (cases "find_or_create_asin order_number item st")
  note c = find_or_create_asin_counters [OF f]
  show ?thesis
    unfolding store_item_def f accounted_def Let_def by (simp add: c)
qed

lemma store_item_failing_accounted:
  "accounted (store_item_failing e order_number item st) = Suc (accounted st)"
proof -
  obtain st1 r where f: "find_or_create_asin order_number item st = (st1, r)"
    by (cases "find_or_create_asin order_number item st")
  note c = find_or_create_asin_counters [OF f]
  show ?thesis
    unfolding store_item_failing_def f accounted_def Let_def by (simp add: c)
qed

lemma process_item_accounted:
  "accounted (process_item item_fault order_number item st) = Suc (accounted st)"
proof (cases "item_fault item")
  case None
  then show ?thesis by (simp add: process_item_def store_item_accounted)
next
  case (Some pe)
  obtain p e where pe: "pe = (p, e)" by (cases pe)
  show ?thesis
  proof (cases p)
    case Asin_lookup
    with Some pe show ?thesis by (simp add: process_item_def accounted_def)
  next
    case Checkin_lookup
    with Some pe show ?thesis by (simp add: process_item_def store_item_failing_accounted)
  qed
qed

lemma process_items_accounted:
  "accounted (process_items item_fault order_number items st) = accounted st + length items"
  by (induction items arbitrary: st) (simp_all add: process_item_accounted)

text \<open>
  C10. A run of \<^verbatim>\<open>process_and_store\<close> that returns the success dictionary accounts for
  every item exactly once: the stored count, the skipped count and the number of error
  messages add up to the number of items, which is also \<^verbatim>\<open>total_items\<close>.
\<close>

theorem process_and_store_partitions_items:
  assumes "process_and_store item_fault commit_fault apply_gmail_label db shipment message_id
           = (Inr res, db')"
  shows "r_stored_count res + r_skipped_count res + length (r_errors res) = length (sd_items shipment)
       \<and> r_total_items res = length (sd_items shipment)"
proof -
  let ?st = "process_items item_fault (sd_order_number shipment) (sd_items shipment) (initial_batch db)"
  have "accounted ?st = accounted (initial_batch db) + length (sd_items shipment)"
    by (rule process_items_accounted)
  then have a: "accounted ?st = length (sd_items shipment)"
    by (simp add: accounted_def initial_batch_def)
  from assms have "r_stored_count res = bs_stored_count ?st" "r_skipped_count res = bs_skipped_count ?st"
    "r_errors res = bs_errors ?st" "r_total_items res = length (sd_items shipment)"
    unfolding process_and_store_def Let_def by (auto split: option.splits)
  with a show ?thesis by (simp add: accounted_def)
qed

theorem process_and_store_partitions_items_witness:
  "process_and_store cloudgo_fault None (\<lambda>m. True) example_db example_shipment (Some ''msg-1'')
     = (Inr \<lparr>r_shipment_number = ''P0017327917518'', r_order_number = ''P0017327917518'',
             r_total_items = 3, r_stored_count = 1, r_skipped_count = 1,
             r_errors = [''Error storing item B09NM2VXF8: connection lost''],
             r_label_applied = Some True\<rparr>,
        example_db\<lparr>asin_bank := asin_bank example_db
                      @ [\<lparr>ab_id = 2, ab_lead_id = ''P0017327917518'', ab_size = Some ''6.5'',
                           ab_asin = ''B0DJDXB819''\<rparr>],
                    checkins := [\<lparr>ci_order_number = ''P0017327917518'',
                                  ci_item_name = ''Nike Air Max 270 GS Black/Orange/Red 6.5 943345-037'',
                                  ci_asin_bank_id = 2, ci_quantity = 2\<rparr>],
                    next_asin_id := 3\<rparr>)
   \<and> (1::nat) + 1 + length [''Error storing item B09NM2VXF8: connection lost''] = 3"
proof -
  let ?res = "\<lparr>r_shipment_number = ''P0017327917518'', r_order_number = ''P0017327917518'',
             r_total_items = 3, r_stored_count = 1, r_skipped_count = 1,
             r_errors = [''Error storing item B09NM2VXF8: connection lost''],
             r_label_applied = Some True\<rparr>"
  let ?db = "example_db\<lparr>asin_bank := asin_bank example_db
                      @ [\<lparr>ab_id = 2, ab_lead_id = ''P0017327917518'', ab_size = Some ''6.5'',
                           ab_asin = ''B0DJDXB819''\<rparr>],
                    checkins := [\<lparr>ci_order_number = ''P0017327917518'',
                                  ci_item_name = ''Nike Air Max 270 GS Black/Orange/Red 6.5 943345-037'',
                                  ci_asin_bank_id = 2, ci_quantity = 2\<rparr>],
                    next_asin_id := 3\<rparr>"
  have e: "process_and_store cloudgo_fault None (\<lambda>m. True) example_db example_shipment (Some ''msg-1'')
     = (Inr ?res, ?db)"
    by code_simp
  from process_and_store_partitions_items [OF e]
  have "r_stored_count ?res + r_skipped_count ?res + length (r_errors ?res)
        = length (sd_items example_shipment)" by blast
  then have "(1::nat) + 1 + length [''Error storing item B09NM2VXF8: connection lost''] = 3"
    by (simp add: example_shipment_def)
  with e show ?thesis by blast
qed

subsection \<open>The ASIN bank\<close>

lemma update_first_map:
  assumes "\<And>x. g (f x) = g x"
  shows "map g (update_first P f xs) = map g xs"
  by (induction xs) (simp_all add: assms)

lemma find_or_create_asin_found:
  assumes "find (\<lambda>r. ab_asin r = pw_asin item) (asin_bank (bs_db st)) = Some r"
  shows "map (\<lambda>x. (ab_id x, ab_lead_id x, ab_asin x))
           (asin_bank (bs_db (fst (find_or_create_asin order_number item st))))
         = map (\<lambda>x. (ab_id x, ab_lead_id x, ab_asin x)) (asin_bank (bs_db st))"
    and "snd (find_or_create_asin order_number item st)
         = (if \<not> truthy (ab_size r) \<and> truthy (pw_size item) then r\<lparr>ab_size := pw_size item\<rparr> else r)"
  using assms unfolding find_or_create_asin_def Let_def
  by (simp_all add: update_first_map)

lemma find_or_create_asin_missing:
  assumes "find (\<lambda>r. ab_asin r = pw_asin item) (asin_bank (bs_db st)) = None"
  shows "asin_bank (bs_db (fst (find_or_create_asin order_number item st)))
         = asin_bank (bs_db st)
           @ [\<lparr>ab_id = next_asin_id (bs_db st),
                ab_lead_id = (if order_number = [] then ''PREPWORX'' else order_number),
                ab_size = pw_size item, ab_asin = pw_asin item\<rparr>]"
  using assms unfolding find_or_create_asin_def Let_def by simp

lemma find_or_create_asin_asins:
  "map ab_asin (asin_bank (bs_db (fst (find_or_create_asin order_number item st))))
   = (if pw_asin item \<in> set (map ab_asin (asin_bank (bs_db st)))
      then map ab_asin (asin_bank (bs_db st))
      else map ab_asin (asin_bank (bs_db st)) @ [pw_asin item])"
proof (cases "find (\<lambda>r. ab_asin r = pw_asin item) (asin_bank (bs_db st))")
  case None
  then have "pw_asin item \<notin> set (map ab_asin (asin_bank (bs_db st)))"
    by (auto simp: find_None_iff)
  with find_or_create_asin_missing [OF None, of order_number] show ?thesis by simp
next
  case (Some r)
  then have "find (\<lambda>r. ab_asin r = pw_asin item) (asin_bank (bs_db st)) \<noteq> None" by simp
  then obtain x where "x \<in> set (asin_bank (bs_db st))" "ab_asin x = pw_asin item"
    unfolding find_None_iff by blast
  then have "pw_asin item \<in> set (map ab_asin (asin_bank (bs_db st)))"
    by (metis image_eqI set_map)
  moreover have "map ab_asin (asin_bank (bs_db (fst (find_or_create_asin order_number item st))))
        = map ab_asin (asin_bank (bs_db st))"
  proof -
    let ?T = "\<lambda>x. (ab_id x, ab_lead_id x, ab_asin x)"
    let ?A = "asin_bank (bs_db (fst (find_or_create_asin order_number item st)))"
    have "map ab_asin ?A = map (\<lambda>t. snd (snd t)) (map ?T ?A)" by simp
    also have "\<dots> = map (\<lambda>t. snd (snd t)) (map ?T (asin_bank (bs_db st)))"
      by (simp only: find_or_create_asin_found(1) [OF Some])
    also have "\<dots> = map ab_asin (asin_bank (bs_db st))" by simp
    finally show ?thesis .
  qed
  ultimately show ?thesis by simp
qed


lemma find_or_create_asin_distinct:
  assumes "asins_distinct (bs_db st)"
  shows "asins_distinct (bs_db (fst (find_or_create_asin order_number item st)))"
  using assms unfolding asins_distinct_def find_or_create_asin_asins by simp

lemma store_item_bank:
  "asin_bank (bs_db (store_item order_number item st))
   = asin_bank (bs_db (fst (find_or_create_asin order_number item st)))"
  unfolding store_item_def Let_def
  by (cases "find_or_create_asin order_number item st") simp

lemma store_item_failing_bank:
  "asin_bank (bs_db (store_item_failing e order_number item st))
   = asin_bank (bs_db (fst (find_or_create_asin order_number item st)))"
  unfolding store_item_failing_def Let_def
  by (cases "find_or_create_asin order_number item st") simp

lemma process_item_distinct:
  assumes "asins_distinct (bs_db st)"
  shows "asins_distinct (bs_db (process_item item_fault order_number item st))"
proof (cases "item_fault item")
  case None
  with find_or_create_asin_distinct [OF assms, of order_number item] show ?thesis
    by (simp add: process_item_def asins_distinct_def store_item_bank)
next
  case (Some pe)
  obtain p e where pe: "pe = (p, e)" by (cases pe)
  show ?thesis
  proof (cases p)
    case Asin_lookup
    with Some pe assms show ?thesis by (simp add: process_item_def)
  next
    case Checkin_lookup
    with Some pe find_or_create_asin_distinct [OF assms, of order_number item] show ?thesis
      by (simp add: process_item_def asins_distinct_def store_item_failing_bank)
  qed
qed

lemma process_items_distinct:
  "asins_distinct (bs_db st) \<Longrightarrow> asins_distinct (bs_db (process_items item_fault order_number items st))"
  by (induction items arbitrary: st) (simp_all add: process_item_distinct)

lemma process_and_store_distinct:
  assumes "asins_distinct db"
  shows "asins_distinct (snd (process_and_store item_fault commit_fault apply_gmail_label db shipment message_id))"
proof (cases commit_fault)
  case None
  from assms have "asins_distinct (bs_db (initial_batch db))" by (simp add: initial_batch_def)
  then have "asins_distinct (bs_db (process_items item_fault (sd_order_number shipment)
      (sd_items shipment) (initial_batch db)))"
    by (rule process_items_distinct)
  with None show ?thesis
    by (simp add: process_and_store_def Let_def asins_distinct_def)
next
  case (Some e)
  with assms show ?thesis by (simp add: process_and_store_def Let_def)
qed

text \<open>
  C7. The shipment path looks an ASIN up before it inserts. When a row with the item's
  ASIN exists, the ASIN bank keeps its rows (same ids, lead ids and ASINs, in the same
  order) and the row found is used, its size filled in from the item when it had none;
  when no row exists, exactly one row is appended, with the item's ASIN and size. So a
  run of \<^verbatim>\<open>process_and_store\<close> on an ASIN bank without repeated ASINs leaves it without
  repeated ASINs.
\<close>

theorem asin_bank_lookup_before_insert:
  "(find (\<lambda>r. ab_asin r = pw_asin item) (asin_bank (bs_db st)) = Some r \<longrightarrow>
      map (\<lambda>x. (ab_id x, ab_lead_id x, ab_asin x))
          (asin_bank (bs_db (fst (find_or_create_asin order_number item st))))
        = map (\<lambda>x. (ab_id x, ab_lead_id x, ab_asin x)) (asin_bank (bs_db st))
      \<and> snd (find_or_create_asin order_number item st)
        = (if \<not> truthy (ab_size r) \<and> truthy (pw_size item) then r\<lparr>ab_size := pw_size item\<rparr> else r))
   \<and> (find (\<lambda>r. ab_asin r = pw_asin item) (asin_bank (bs_db st)) = None \<longrightarrow>
      asin_bank (bs_db (fst (find_or_create_asin order_number item st)))
        = asin_bank (bs_db st)
          @ [\<lparr>ab_id = next_asin_id (bs_db st),
               ab_lead_id = (if order_number = [] then ''PREPWORX'' else order_number),
               ab_size = pw_size item, ab_asin = pw_asin item\<rparr>])
   \<and> (distinct (map ab_asin (asin_bank db)) \<longrightarrow>
      distinct (map ab_asin (asin_bank
        (snd (process_and_store item_fault commit_fault apply_gmail_label db shipment message_id)))))"
  using find_or_create_asin_found [of item st r order_number]
    find_or_create_asin_missing [of item st order_number]
    process_and_store_distinct [of db item_fault commit_fault apply_gmail_label shipment message_id]
  unfolding asins_distinct_def by blast

theorem asin_bank_lookup_before_insert_witness:
  "find (\<lambda>r. ab_asin r = pw_asin cloudgo_item) (asin_bank (bs_db (initial_batch example_db)))
     = Some \<lparr>ab_id = 1, ab_lead_id = ''L-100'', ab_size = None, ab_asin = ''B09NM2VXF8''\<rparr>
   \<and> snd (find_or_create_asin ''P0017327917518'' cloudgo_item (initial_batch example_db))
     = \<lparr>ab_id = 1, ab_lead_id = ''L-100'', ab_size = Some ''8.5'', ab_asin = ''B09NM2VXF8''\<rparr>
   \<and> map ab_asin (asin_bank (bs_db (fst
        (find_or_create_asin ''P0017327917518'' cloudgo_item (initial_batch example_db)))))
     = [''B09NM2VXF8'']
   \<and> find (\<lambda>r. ab_asin r = pw_asin airmax_item) (asin_bank (bs_db (initial_batch example_db))) = None
   \<and> map ab_asin (asin_bank (bs_db (fst
        (find_or_create_asin ''P0017327917518'' airmax_item (initial_batch example_db)))))
     = [''B09NM2VXF8'', ''B0DJDXB819'']
   \<and> distinct (map ab_asin (asin_bank example_db))
   \<and> distinct (map ab_asin (asin_bank (snd
        (process_and_store no_fault None (\<lambda>m. True) example_db example_shipment None))))"
proof -
  let ?st = "initial_batch example_db"
  let ?r = "\<lparr>ab_id = 1, ab_lead_id = ''L-100'', ab_size = None, ab_asin = ''B09NM2VXF8''\<rparr>"
  have f1: "find (\<lambda>r. ab_asin r = pw_asin cloudgo_item) (asin_bank (bs_db ?st)) = Some ?r"
    by code_simp
  have f2: "find (\<lambda>r. ab_asin r = pw_asin airmax_item) (asin_bank (bs_db ?st)) = None"
    by code_simp
  have d: "distinct (map ab_asin (asin_bank example_db))" by code_simp
  have t1: "truthy (pw_size cloudgo_item)" "\<not> truthy (ab_size ?r)" by code_simp+
  have b0: "map ab_asin (asin_bank (bs_db ?st)) = [''B09NM2VXF8'']" by code_simp
  note c = asin_bank_lookup_before_insert
    [of cloudgo_item ?st ?r "''P0017327917518''" example_db no_fault None "\<lambda>m. True"
        example_shipment None]
  note a = asin_bank_lookup_before_insert
    [of airmax_item ?st ?r "''P0017327917518''" example_db no_fault None "\<lambda>m. True"
        example_shipment None]
  from c f1 t1 have s1: "snd (find_or_create_asin ''P0017327917518'' cloudgo_item ?st)
      = ?r\<lparr>ab_size := pw_size cloudgo_item\<rparr>" by simp
  then have s1': "snd (find_or_create_asin ''P0017327917518'' cloudgo_item ?st)
      = \<lparr>ab_id = 1, ab_lead_id = ''L-100'', ab_size = Some ''8.5'', ab_asin = ''B09NM2VXF8''\<rparr>"
    by (simp add: cloudgo_item_def)
  have m1: "map ab_asin (asin_bank (bs_db (fst (find_or_create_asin ''P0017327917518'' cloudgo_item ?st))))
      = [''B09NM2VXF8'']" by code_simp
  from a f2 have "asin_bank (bs_db (fst (find_or_create_asin ''P0017327917518'' airmax_item ?st)))
      = asin_bank (bs_db ?st)
          @ [\<lparr>ab_id = next_asin_id (bs_db ?st),
               ab_lead_id = (if ''P0017327917518'' = [] then ''PREPWORX'' else ''P0017327917518''),
               ab_size = pw_size airmax_item, ab_asin = pw_asin airmax_item\<rparr>]" by blast
  then have m2: "map ab_asin (asin_bank (bs_db (fst (find_or_create_asin ''P0017327917518'' airmax_item ?st))))
      = [''B09NM2VXF8'', ''B0DJDXB819'']"
    by (simp add: b0 airmax_item_def)
  from c d have d': "distinct (map ab_asin (asin_bank (snd
        (process_and_store no_fault None (\<lambda>m. True) example_db example_shipment None))))"
    by blast
  from f1 s1' m1 f2 m2 d d' show ?thesis by blast
qed

section \<open>PrepWorx check-in processor: duplicates\<close>


lemma find_or_create_asin_rows:
  assumes "find_or_create_asin order_number item st = (st1, r)"
  shows "(checkins (bs_db st1) = checkins (bs_db st) \<and> bs_pending st1 = bs_pending st)
       \<or> (checkins (bs_db st1) = checkins (bs_db st) @ bs_pending st \<and> bs_pending st1 = [])"
  using assms unfolding find_or_create_asin_def Let_def
  by (auto split: option.splits if_splits)

lemma find_or_create_asin_inv:
  assumes "find_or_create_asin order_number item st = (st1, r)" and "dedup_inv db0 st"
  shows "dedup_inv db0 st1"
proof -
  from assms(2) obtain fl where fl: "checkins (bs_db st) = checkins db0 @ fl"
    "distinct (map checkin_key (fl @ bs_pending st))"
    "set (map checkin_key (fl @ bs_pending st)) \<inter> set (map checkin_key (checkins db0)) = {}"
    "length (fl @ bs_pending st) = bs_stored_count st"
    "set (map checkin_key (fl @ bs_pending st)) \<subseteq> bs_processed_in_batch st"
    unfolding dedup_inv_def by blast
  note c = find_or_create_asin_counters [OF assms(1)]
  from find_or_create_asin_rows [OF assms(1)] show ?thesis
  proof
    assume a: "checkins (bs_db st1) = checkins (bs_db st) \<and> bs_pending st1 = bs_pending st"
    show ?thesis unfolding dedup_inv_def
      by (rule exI [of _ fl]) (use a fl c in simp)
  next
    assume a: "checkins (bs_db st1) = checkins (bs_db st) @ bs_pending st \<and> bs_pending st1 = []"
    show ?thesis unfolding dedup_inv_def
      by (rule exI [of _ "fl @ bs_pending st"]) (use a fl c in simp)
  qed
qed

lemma find_None_key:
  "find (\<lambda>row. checkin_key row = k) rows = None \<Longrightarrow> k \<notin> set (map checkin_key rows)"
  by (auto simp: find_None_iff)

lemma store_item_inv:
  assumes "dedup_inv db0 st"
  shows "dedup_inv db0 (store_item order_number item st)"
proof -
  obtain st1 r where f: "find_or_create_asin order_number item st = (st1, r)"
    by (cases "find_or_create_asin order_number item st")
  have i1: "dedup_inv db0 st1" by (rule find_or_create_asin_inv [OF f assms])
  then obtain fl where fl: "checkins (bs_db st1) = checkins db0 @ fl"
    "distinct (map checkin_key (fl @ bs_pending st1))"
    "set (map checkin_key (fl @ bs_pending st1)) \<inter> set (map checkin_key (checkins db0)) = {}"
    "length (fl @ bs_pending st1) = bs_stored_count st1"
    "set (map checkin_key (fl @ bs_pending st1)) \<subseteq> bs_processed_in_batch st1"
    unfolding dedup_inv_def by blast
  define k where "k = (order_number, ab_id r, pw_item_name item, pw_quantity item)"
  define row where "row = \<lparr>ci_order_number = order_number, ci_item_name = pw_item_name item,
      ci_asin_bank_id = ab_id r, ci_quantity = pw_quantity item\<rparr>"
  have kr: "checkin_key row = k" by (simp add: row_def k_def checkin_key_def)
  consider (batch) "k \<in> bs_processed_in_batch st1"
    | (db) "k \<notin> bs_processed_in_batch st1"
           "find (\<lambda>row. checkin_key row = k) (checkins (bs_db st1)) \<noteq> None"
    | (new) "k \<notin> bs_processed_in_batch st1"
           "find (\<lambda>row. checkin_key row = k) (checkins (bs_db st1)) = None"
    by blast
  then show ?thesis
  proof cases
    case batch
    then have "store_item order_number item st = st1\<lparr>bs_skipped_count := bs_skipped_count st1 + 1\<rparr>"
      by (simp add: store_item_def f k_def)
    with i1 show ?thesis by (simp add: dedup_inv_def)
  next
    case db
    then have "store_item order_number item st = st1\<lparr>bs_skipped_count := bs_skipped_count st1 + 1\<rparr>"
      by (simp add: store_item_def f k_def)
    with i1 show ?thesis by (simp add: dedup_inv_def)
  next
    case new
    then have s: "store_item order_number item st
        = st1\<lparr>bs_processed_in_batch := insert k (bs_processed_in_batch st1),
              bs_pending := bs_pending st1 @ [row],
              bs_stored_count := bs_stored_count st1 + 1\<rparr>"
      by (simp add: store_item_def f k_def row_def)
    from new(1) fl(5) have n1: "k \<notin> set (map checkin_key (fl @ bs_pending st1))" by blast
    from find_None_key [OF new(2)] fl(1) have n2: "k \<notin> set (map checkin_key (checkins db0))"
      by simp
    show ?thesis unfolding dedup_inv_def s
      by (rule exI [of _ fl]) (use fl n1 n2 kr in auto)
  qed
qed

lemma store_item_failing_inv:
  assumes "dedup_inv db0 st"
  shows "dedup_inv db0 (store_item_failing e order_number item st)"
proof -
  obtain st1 r where f: "find_or_create_asin order_number item st = (st1, r)"
    by (cases "find_or_create_asin order_number item st")
  have "dedup_inv db0 st1" by (rule find_or_create_asin_inv [OF f assms])
  then show ?thesis
    unfolding store_item_failing_def f Let_def by (simp add: dedup_inv_def)
qed

lemma process_item_inv:
  assumes "dedup_inv db0 st"
  shows "dedup_inv db0 (process_item item_fault order_number item st)"
proof (cases "item_fault item")
  case None
  with store_item_inv [OF assms] show ?thesis by (simp add: process_item_def)
next
  case (Some pe)
  obtain p e where pe: "pe = (p, e)" by (cases pe)
  show ?thesis
  proof (cases p)
    case Asin_lookup
    with Some pe assms show ?thesis by (simp add: process_item_def dedup_inv_def)
  next
    case Checkin_lookup
    with Some pe store_item_failing_inv [OF assms] show ?thesis by (simp add: process_item_def)
  qed
qed

lemma process_items_inv:
  "dedup_inv db0 st \<Longrightarrow> dedup_inv db0 (process_items item_fault order_number items st)"
  by (induction items arbitrary: st) (simp_all add: process_item_inv)

lemma process_and_store_new_rows:
  assumes "process_and_store item_fault commit_fault apply_gmail_label db shipment message_id
           = (Inr res, db')"
  shows "\<exists>new. checkins db' = checkins db @ new
       \<and> distinct (map checkin_key new)
       \<and> set (map checkin_key new) \<inter> set (map checkin_key (checkins db)) = {}
       \<and> length new = r_stored_count res"
proof -
  let ?st = "process_items item_fault (sd_order_number shipment) (sd_items shipment) (initial_batch db)"
  have "dedup_inv db (initial_batch db)" by (simp add: dedup_inv_def initial_batch_def)
  then have "dedup_inv db ?st" by (rule process_items_inv)
  then obtain fl where fl: "checkins (bs_db ?st) = checkins db @ fl"
    "distinct (map checkin_key (fl @ bs_pending ?st))"
    "set (map checkin_key (fl @ bs_pending ?st)) \<inter> set (map checkin_key (checkins db)) = {}"
    "length (fl @ bs_pending ?st) = bs_stored_count ?st"
    unfolding dedup_inv_def by blast
  from assms have r: "r_stored_count res = bs_stored_count ?st"
    and d: "db' = (bs_db ?st)\<lparr>checkins := checkins (bs_db ?st) @ bs_pending ?st\<rparr>"
    unfolding process_and_store_def Let_def by (auto split: option.splits)
  show ?thesis
    by (rule exI [of _ "fl @ bs_pending ?st"]) (use fl r d in simp)
qed

subsection \<open>An item met before is skipped\<close>



lemma find_update_first:
  assumes "\<And>x. P (f x) = P x" and "\<And>x. g (f x) = g x"
  shows "map_option g (find P (update_first Q f xs)) = map_option g (find P xs)"
  by (induction xs) (simp_all add: assms)

lemma find_append_case:
  "find P (xs @ ys) = (case find P xs of None \<Rightarrow> find P ys | Some x \<Rightarrow> Some x)"
  by (induction xs) simp_all

lemma find_grows:
  "find P xs \<noteq> None \<Longrightarrow> find P (xs @ ys) \<noteq> None"
  by (induction xs) auto

text \<open>The id that the look-up by an ASIN gives does not change once a row is there.\<close>

lemma find_or_create_asin_keeps_id:
  assumes "find_or_create_asin order_number j st = (st1, r)"
    and "find (\<lambda>r. ab_asin r = a) (asin_bank (bs_db st)) = Some x"
  shows "map_option ab_id (find (\<lambda>r. ab_asin r = a) (asin_bank (bs_db st1))) = Some (ab_id x)"
proof (cases "find (\<lambda>r. ab_asin r = pw_asin j) (asin_bank (bs_db st))")
  case None
  with assms(1) have "asin_bank (bs_db st1) = asin_bank (bs_db st)
      @ [\<lparr>ab_id = next_asin_id (bs_db st),
           ab_lead_id = (if order_number = [] then ''PREPWORX'' else order_number),
           ab_size = pw_size j, ab_asin = pw_asin j\<rparr>]"
    unfolding find_or_create_asin_def Let_def by auto
  with assms(2) show ?thesis by (simp add: find_append_case)
next
  case (Some y)
  show ?thesis
  proof (cases "\<not> truthy (ab_size y) \<and> truthy (pw_size j)")
    case True
    with Some assms(1) have "asin_bank (bs_db st1)
        = update_first (\<lambda>r. ab_asin r = pw_asin j) (\<lambda>r. r\<lparr>ab_size := pw_size j\<rparr>)
            (asin_bank (bs_db st))"
      unfolding find_or_create_asin_def Let_def by auto
    then have "map_option ab_id (find (\<lambda>r. ab_asin r = a) (asin_bank (bs_db st1)))
        = map_option ab_id (find (\<lambda>r. ab_asin r = a) (asin_bank (bs_db st)))"
      by (simp add: find_update_first)
    with assms(2) show ?thesis by simp
  next
    case False
    with Some assms(1) have "st1 = st"
      unfolding find_or_create_asin_def Let_def by auto
    with assms(2) show ?thesis by simp
  qed
qed

text \<open>The row that find-or-create returns is the one the look-up gives afterwards.\<close>

lemma find_or_create_asin_returns_first:
  assumes "find_or_create_asin order_number item st = (st1, r)"
  shows "map_option ab_id (find (\<lambda>r. ab_asin r = pw_asin item) (asin_bank (bs_db st1)))
         = Some (ab_id r)"
proof (cases "find (\<lambda>r. ab_asin r = pw_asin item) (asin_bank (bs_db st))")
  case None
  with assms have b: "asin_bank (bs_db st1) = asin_bank (bs_db st)
      @ [\<lparr>ab_id = next_asin_id (bs_db st),
           ab_lead_id = (if order_number = [] then ''PREPWORX'' else order_number),
           ab_size = pw_size item, ab_asin = pw_asin item\<rparr>]"
    and r: "ab_id r = next_asin_id (bs_db st)"
    unfolding find_or_create_asin_def Let_def by auto
  from None b r show ?thesis by (simp add: find_append_case)
next
  case (Some y)
  with assms have "ab_id r = ab_id y"
    unfolding find_or_create_asin_def Let_def by (auto split: if_splits)
  with find_or_create_asin_keeps_id [OF assms Some] show ?thesis by simp
qed

lemma find_or_create_asin_checkins_grow:
  assumes "find_or_create_asin order_number j st = (st1, r)"
    and "find P (checkins (bs_db st)) \<noteq> None"
  shows "find P (checkins (bs_db st1)) \<noteq> None"
  using find_or_create_asin_rows [OF assms(1)] assms(2) find_grows [of P "checkins (bs_db st)"]
  by auto

lemma find_or_create_asin_seen:
  assumes "find_or_create_asin order_number j st = (st1, r)" and "seen order_number item st"
  shows "seen order_number item st1"
proof -
  from assms(2) obtain x where x: "find (\<lambda>r. ab_asin r = pw_asin item) (asin_bank (bs_db st)) = Some x"
    unfolding seen_def by (auto split: option.splits)
  let ?k = "(order_number, ab_id x, pw_item_name item, pw_quantity item)"
  from assms(2) x have s: "?k \<in> bs_processed_in_batch st
      \<or> find (\<lambda>row. checkin_key row = ?k) (checkins (bs_db st)) \<noteq> None"
    unfolding seen_def by simp
  from find_or_create_asin_keeps_id [OF assms(1) x]
  obtain x' where x': "find (\<lambda>r. ab_asin r = pw_asin item) (asin_bank (bs_db st1)) = Some x'"
    and id: "ab_id x' = ab_id x" by auto
  note c = find_or_create_asin_counters(4) [OF assms(1)]
  from s show ?thesis
  proof
    assume "?k \<in> bs_processed_in_batch st"
    with c x' id show ?thesis unfolding seen_def by simp
  next
    assume "find (\<lambda>row. checkin_key row = ?k) (checkins (bs_db st)) \<noteq> None"
    then have "find (\<lambda>row. checkin_key row = ?k) (checkins (bs_db st1)) \<noteq> None"
      by (rule find_or_create_asin_checkins_grow [OF assms(1)])
    with x' id show ?thesis unfolding seen_def by simp
  qed
qed

text \<open>What the three branches after find-or-create leave of the state.\<close>

lemma store_item_after:
  assumes "find_or_create_asin order_number j st = (st1, r)"
  shows "bs_db (store_item order_number j st) = bs_db st1"
    and "bs_processed_in_batch st1 \<subseteq> bs_processed_in_batch (store_item order_number j st)"
  unfolding store_item_def assms Let_def by auto

lemma seen_mono:
  assumes "seen order_number item st1" and "bs_db st2 = bs_db st1"
    and "bs_processed_in_batch st1 \<subseteq> bs_processed_in_batch st2"
  shows "seen order_number item st2"
  using assms unfolding seen_def by (auto split: option.splits)

lemma process_item_seen:
  assumes "seen order_number item st"
  shows "seen order_number item (process_item item_fault order_number j st)"
proof (cases "item_fault j")
  case (Some pe)
  obtain p e where pe: "pe = (p, e)" by (cases pe)
  show ?thesis
  proof (cases p)
    case Asin_lookup
    have "seen order_number item
        (st\<lparr>bs_errors := bs_errors st @ [''Error storing item '' @ pw_asin j @ '': '' @ e]\<rparr>)"
      by (rule seen_mono [OF assms]) simp_all
    with Some pe Asin_lookup show ?thesis by (simp add: process_item_def)
  next
    case Checkin_lookup
    obtain st1 r where f: "find_or_create_asin order_number j st = (st1, r)"
      by (cases "find_or_create_asin order_number j st")
    have s1: "seen order_number item st1" by (rule find_or_create_asin_seen [OF f assms])
    have "seen order_number item (store_item_failing e order_number j st)"
      by (rule seen_mono [OF s1]) (simp_all add: store_item_failing_def f Let_def)
    with Some pe Checkin_lookup show ?thesis by (simp add: process_item_def)
  qed
next
  case None
  obtain st1 r where f: "find_or_create_asin order_number j st = (st1, r)"
    by (cases "find_or_create_asin order_number j st")
  have "seen order_number item st1" by (rule find_or_create_asin_seen [OF f assms])
  then have "seen order_number item (store_item order_number j st)"
    by (rule seen_mono) (rule store_item_after [OF f])+
  with None show ?thesis by (simp add: process_item_def)
qed

lemma process_items_seen:
  "seen order_number item st \<Longrightarrow> seen order_number item (process_items item_fault order_number js st)"
  by (induction js arbitrary: st) (simp_all add: process_item_seen)

lemma store_item_makes_seen:
  assumes "same_entry i i'"
  shows "seen order_number i' (store_item order_number i st)"
proof -
  obtain st1 r where f: "find_or_create_asin order_number i st = (st1, r)"
    by (cases "find_or_create_asin order_number i st")
  from find_or_create_asin_returns_first [OF f]
  obtain x where x: "find (\<lambda>r. ab_asin r = pw_asin i) (asin_bank (bs_db st1)) = Some x"
    and id: "ab_id x = ab_id r" by auto
  define k where "k = (order_number, ab_id r, pw_item_name i, pw_quantity i)"
  have d: "bs_db (store_item order_number i st) = bs_db st1" by (rule store_item_after(1) [OF f])
  have "k \<in> bs_processed_in_batch (store_item order_number i st)
      \<or> find (\<lambda>row. checkin_key row = k) (checkins (bs_db st1)) \<noteq> None"
    unfolding store_item_def f Let_def k_def by auto
  with x id d assms show ?thesis
    unfolding seen_def same_entry_def k_def by simp
qed

lemma seen_item_is_skipped:
  assumes "seen order_number i' st" and "item_fault i' = None"
  shows "bs_stored_count (process_item item_fault order_number i' st) = bs_stored_count st"
    and "bs_skipped_count (process_item item_fault order_number i' st) = Suc (bs_skipped_count st)"
    and "checkins (bs_db (process_item item_fault order_number i' st))
           @ bs_pending (process_item item_fault order_number i' st)
         = checkins (bs_db st) @ bs_pending st"
proof -
  obtain st1 r where f: "find_or_create_asin order_number i' st = (st1, r)"
    by (cases "find_or_create_asin order_number i' st")
  from assms(1) obtain x where x: "find (\<lambda>r. ab_asin r = pw_asin i') (asin_bank (bs_db st)) = Some x"
    unfolding seen_def by (auto split: option.splits)
  from find_or_create_asin_returns_first [OF f] find_or_create_asin_keeps_id [OF f x]
  have id: "ab_id r = ab_id x" by simp
  define k where "k = (order_number, ab_id r, pw_item_name i', pw_quantity i')"
  from assms(1) x id have s: "k \<in> bs_processed_in_batch st
      \<or> find (\<lambda>row. checkin_key row = k) (checkins (bs_db st)) \<noteq> None"
    unfolding seen_def k_def by simp
  note c = find_or_create_asin_counters [OF f]
  from s have "k \<in> bs_processed_in_batch st1
      \<or> find (\<lambda>row. checkin_key row = k) (checkins (bs_db st1)) \<noteq> None"
    using c(4) find_or_create_asin_checkins_grow [OF f] by blast
  then have e: "store_item order_number i' st = st1\<lparr>bs_skipped_count := bs_skipped_count st1 + 1\<rparr>"
    unfolding store_item_def f Let_def k_def by auto
  from assms(2) have p: "process_item item_fault order_number i' st = store_item order_number i' st"
    by (simp add: process_item_def)
  show "bs_stored_count (process_item item_fault order_number i' st) = bs_stored_count st"
    by (simp add: p e c)
  show "bs_skipped_count (process_item item_fault order_number i' st) = Suc (bs_skipped_count st)"
    by (simp add: p e c)
  from find_or_create_asin_rows [OF f]
  show "checkins (bs_db (process_item item_fault order_number i' st))
           @ bs_pending (process_item item_fault order_number i' st)
         = checkins (bs_db st) @ bs_pending st"
    by (auto simp: p e)
qed

lemma process_items_append:
  "process_items item_fault order_number (xs @ ys) st
   = process_items item_fault order_number ys (process_items item_fault order_number xs st)"
  by (induction xs arbitrary: st) simp_all

lemma repeated_entry_seen:
  assumes "same_entry i i'" and "item_fault i = None"
  shows "seen order_number i' (process_items item_fault order_number (xs @ i # ys) st)"
proof -
  let ?a = "process_items item_fault order_number xs st"
  have "seen order_number i' (store_item order_number i ?a)"
    by (rule store_item_makes_seen [OF assms(1)])
  with assms(2) have "seen order_number i' (process_item item_fault order_number i ?a)"
    by (simp add: process_item_def)
  then have "seen order_number i' (process_items item_fault order_number ys
      (process_item item_fault order_number i ?a))"
    by (rule process_items_seen)
  then show ?thesis by (simp add: process_items_append)
qed

lemma stored_entry_seen:
  assumes "find (\<lambda>r. ab_asin r = pw_asin i) (asin_bank db) = Some r"
    and "find (\<lambda>row. checkin_key row = (order_number, ab_id r, pw_item_name i, pw_quantity i))
           (checkins db) \<noteq> None"
  shows "seen order_number i (process_items item_fault order_number xs (initial_batch db))"
proof -
  from assms have "seen order_number i (initial_batch db)"
    by (simp add: seen_def initial_batch_def)
  then show ?thesis by (rule process_items_seen)
qed

text \<open>
  C6. Duplicates are detected per item. The check-in rows that a successful run writes
  have pairwise distinct keys (order number, ASIN bank id, item name, quantity), none of
  them is the key of a row that was in the store before, and their number is the stored
  count: of two entries with the same key at most one is stored. An entry that agrees
  with an earlier entry of the same shipment on ASIN, item name and quantity is counted
  as skipped and writes no row; so is an entry whose key is on a row that a previous run
  left in the store.
\<close>

theorem shipment_dedup_per_item:
  "(process_and_store item_fault commit_fault apply_gmail_label db shipment message_id = (Inr res, db')
      \<longrightarrow> (\<exists>new. checkins db' = checkins db @ new
             \<and> distinct (map checkin_key new)
             \<and> set (map checkin_key new) \<inter> set (map checkin_key (checkins db)) = {}
             \<and> length new = r_stored_count res))
   \<and> (same_entry i i' \<and> item_fault i = None \<and> item_fault i' = None
        \<and> st = process_items item_fault order_number (xs @ i # ys) (initial_batch db)
      \<longrightarrow> bs_stored_count (process_item item_fault order_number i' st) = bs_stored_count st
          \<and> bs_skipped_count (process_item item_fault order_number i' st) = Suc (bs_skipped_count st)
          \<and> checkins (bs_db (process_item item_fault order_number i' st))
              @ bs_pending (process_item item_fault order_number i' st)
            = checkins (bs_db st) @ bs_pending st)
   \<and> (find (\<lambda>r. ab_asin r = pw_asin j) (asin_bank db) = Some r
        \<and> find (\<lambda>row. checkin_key row = (order_number, ab_id r, pw_item_name j, pw_quantity j))
             (checkins db) \<noteq> None
        \<and> item_fault j = None
        \<and> st2 = process_items item_fault order_number zs (initial_batch db)
      \<longrightarrow> bs_stored_count (process_item item_fault order_number j st2) = bs_stored_count st2
          \<and> bs_skipped_count (process_item item_fault order_number j st2) = Suc (bs_skipped_count st2)
          \<and> checkins (bs_db (process_item item_fault order_number j st2))
              @ bs_pending (process_item item_fault order_number j st2)
            = checkins (bs_db st2) @ bs_pending st2)"
proof (intro conjI impI)
  assume "process_and_store item_fault commit_fault apply_gmail_label db shipment message_id = (Inr res, db')"
  then show "\<exists>new. checkins db' = checkins db @ new
             \<and> distinct (map checkin_key new)
             \<and> set (map checkin_key new) \<inter> set (map checkin_key (checkins db)) = {}
             \<and> length new = r_stored_count res"
    by (rule process_and_store_new_rows)
next
  assume a: "same_entry i i' \<and> item_fault i = None \<and> item_fault i' = None
        \<and> st = process_items item_fault order_number (xs @ i # ys) (initial_batch db)"
  then have s: "seen order_number i' st" using repeated_entry_seen by blast
  from a have n: "item_fault i' = None" by blast
  show "bs_stored_count (process_item item_fault order_number i' st) = bs_stored_count st"
    using seen_item_is_skipped(1) s n by blast
  show "bs_skipped_count (process_item item_fault order_number i' st) = Suc (bs_skipped_count st)"
    using seen_item_is_skipped(2) s n by blast
  show "checkins (bs_db (process_item item_fault order_number i' st))
              @ bs_pending (process_item item_fault order_number i' st)
            = checkins (bs_db st) @ bs_pending st"
    using seen_item_is_skipped(3) s n by blast
next
  assume a: "find (\<lambda>r. ab_asin r = pw_asin j) (asin_bank db) = Some r
        \<and> find (\<lambda>row. checkin_key row = (order_number, ab_id r, pw_item_name j, pw_quantity j))
             (checkins db) \<noteq> None
        \<and> item_fault j = None
        \<and> st2 = process_items item_fault order_number zs (initial_batch db)"
  then have s: "seen order_number j st2" using stored_entry_seen by blast
  from a have n: "item_fault j = None" by blast
  show "bs_stored_count (process_item item_fault order_number j st2) = bs_stored_count st2"
    using seen_item_is_skipped(1) s n by blast
  show "bs_skipped_count (process_item item_fault order_number j st2) = Suc (bs_skipped_count st2)"
    using seen_item_is_skipped(2) s n by blast
  show "checkins (bs_db (process_item item_fault order_number j st2))
              @ bs_pending (process_item item_fault order_number j st2)
            = checkins (bs_db st2) @ bs_pending st2"
    using seen_item_is_skipped(3) s n by blast
qed

theorem shipment_dedup_per_item_witness:
  "process_and_store no_fault None (\<lambda>m. True) example_db example_shipment None
     = (Inr \<lparr>r_shipment_number = ''P0017327917518'', r_order_number = ''P0017327917518'',
             r_total_items = 3, r_stored_count = 2, r_skipped_count = 1, r_errors = [],
             r_label_applied = None\<rparr>, example_db_after)
   \<and> length (checkins example_db_after) = 2
   \<and> same_entry airmax_item airmax_item \<and> no_fault airmax_item = None
   \<and> bs_stored_count (process_items no_fault ''P0017327917518'' [airmax_item, airmax_item]
        (initial_batch example_db)) = 1
   \<and> bs_skipped_count (process_items no_fault ''P0017327917518'' [airmax_item, airmax_item]
        (initial_batch example_db)) = 1
   \<and> find (\<lambda>r. ab_asin r = pw_asin airmax_item) (asin_bank example_db_after)
      = Some \<lparr>ab_id = 2, ab_lead_id = ''P0017327917518'', ab_size = Some ''6.5'', ab_asin = ''B0DJDXB819''\<rparr>
   \<and> bs_stored_count (process_items no_fault ''P0017327917518'' [airmax_item]
        (initial_batch example_db_after)) = 0
   \<and> bs_skipped_count (process_items no_fault ''P0017327917518'' [airmax_item]
        (initial_batch example_db_after)) = 1"
proof -
  let ?on = "''P0017327917518''"
  let ?res = "\<lparr>r_shipment_number = ''P0017327917518'', r_order_number = ''P0017327917518'',
             r_total_items = 3, r_stored_count = 2, r_skipped_count = 1, r_errors = [],
             r_label_applied = None\<rparr>"
  let ?r2 = "\<lparr>ab_id = 2, ab_lead_id = ''P0017327917518'', ab_size = Some ''6.5'', ab_asin = ''B0DJDXB819''\<rparr>"
  let ?st = "process_items no_fault ?on ([] @ airmax_item # []) (initial_batch example_db)"
  let ?st2 = "process_items no_fault ?on [] (initial_batch example_db_after)"
  have e: "process_and_store no_fault None (\<lambda>m. True) example_db example_shipment None
     = (Inr ?res, example_db_after)" by code_simp
  have s: "same_entry airmax_item airmax_item" by (simp add: same_entry_def)
  have n: "no_fault airmax_item = None" by (simp add: no_fault_def)
  have c1: "bs_stored_count ?st = 1" "bs_skipped_count ?st = 0" by code_simp+
  have f: "find (\<lambda>r. ab_asin r = pw_asin airmax_item) (asin_bank example_db_after) = Some ?r2"
    by code_simp
  have g: "find (\<lambda>row. checkin_key row = (?on, ab_id ?r2, pw_item_name airmax_item, pw_quantity airmax_item))
      (checkins example_db_after) \<noteq> None" by code_simp
  have c2: "bs_stored_count ?st2 = 0" "bs_skipped_count ?st2 = 0" by code_simp+
  note t = shipment_dedup_per_item
    [of no_fault None "\<lambda>m. True" example_db example_shipment None ?res example_db_after
        airmax_item airmax_item ?st ?on "[]" "[]" airmax_item ?r2 ?st2 "[]"]
  note t1 = t [THEN conjunct1] and t2 = t [THEN conjunct2, THEN conjunct1]
  note t3 = shipment_dedup_per_item
    [of no_fault None "\<lambda>m. True" example_db_after example_shipment None ?res example_db_after
        airmax_item airmax_item ?st ?on "[]" "[]" airmax_item ?r2 ?st2 "[]",
     THEN conjunct2, THEN conjunct2]
  from mp [OF t1 e] obtain new where "checkins example_db_after = checkins example_db @ new"
    and "length new = r_stored_count ?res" by blast
  then have l: "length (checkins example_db_after) = 2" by (simp add: example_db_def)
  from t2 s n have "bs_stored_count (process_item no_fault ?on airmax_item ?st) = bs_stored_count ?st
      \<and> bs_skipped_count (process_item no_fault ?on airmax_item ?st) = Suc (bs_skipped_count ?st)"
    by blast
  with c1 have a: "bs_stored_count (process_items no_fault ?on [airmax_item, airmax_item]
        (initial_batch example_db)) = 1
     \<and> bs_skipped_count (process_items no_fault ?on [airmax_item, airmax_item]
        (initial_batch example_db)) = 1" by simp
  from t3 f g n have "bs_stored_count (process_item no_fault ?on airmax_item ?st2) = bs_stored_count ?st2
      \<and> bs_skipped_count (process_item no_fault ?on airmax_item ?st2) = Suc (bs_skipped_count ?st2)"
    by blast
  with c2 have b: "bs_stored_count (process_items no_fault ?on [airmax_item]
        (initial_batch example_db_after)) = 0
     \<and> bs_skipped_count (process_items no_fault ?on [airmax_item]
        (initial_batch example_db_after)) = 1" by simp
  from e l s n a f b show ?thesis by blast
qed

section \<open>Retailer order processor: duplicates and orders without a usable item\<close>









subsection \<open>An order none of whose items has a sourcing lead\<close>






end
